theory Spec2Isabelle
  imports Complex_Main
begin

text \<open>
  A model of \<open>docs/precision_analysis/precision_loss_analysis.py\<close>, the script that
  compares the linear interest accrual of the sGHO contract with an exact and with a
  continuously compounded reference, all in Python's \<open>decimal\<close> arithmetic at 50
  significant digits. The printing of the tables is left out; the bodies of the scenario
  loops are functions of the parameters that the script takes from its hard-coded lists.
\<close>

section \<open>Exceptions and results\<close>

text \<open>
  The exceptions the script can meet: \<open>decimal.DivisionByZero\<close> and
  \<open>decimal.InvalidOperation\<close> (both trapped by the default context) from a Decimal
  division, \<open>ZeroDivisionError\<close> from the integer floor division \<open>//\<close>, and
  \<open>OverflowError\<close> from \<open>math.exp\<close>. A computation that raises is \<open>Inl\<close> of the
  exception; one that returns is \<open>Inr\<close> of its value.
\<close>

datatype error = DivisionByZero | InvalidOperation | ZeroDivisionError | OverflowError

definition and_then :: "error + 'a \<Rightarrow> ('a \<Rightarrow> error + 'b) \<Rightarrow> error + 'b" where
  "and_then r f = (case r of Inl e \<Rightarrow> Inl e | Inr v \<Rightarrow> f v)"

definition py_floordiv :: "int \<Rightarrow> int \<Rightarrow> error + int" where
  \<comment> \<open>Python's \<open>a // b\<close> on ints: floor division, raising on a zero divisor.\<close>
  "py_floordiv a b = (if b = 0 then Inl ZeroDivisionError else Inr (a div b))"

section \<open>Decimal arithmetic under the 50-digit context\<close>

text \<open>
  A finite \<open>Decimal\<close> is modelled by the rational number it denotes. The script compares
  Decimals only by value (\<open><=\<close>, \<open>abs\<close>, arithmetic), so the exponent chosen for a value
  and the sign of a zero are not represented. Every arithmetic operation of the
  \<open>decimal\<close> module returns the exact result rounded to the context precision
  (\<open>decimal.getcontext().prec = 50\<close>) with the context's default rounding
  \<open>ROUND_HALF_EVEN\<close>; \<open>dfix\<close> is that rounding. The exponent limits of the context
  (\<open>Emax = 999999\<close>, \<open>Emin = -999999\<close>) are not modelled.
\<close>

type_synonym decimal = rat

definition prec :: nat where
  "prec = 50"

fun ndigits :: "int \<Rightarrow> nat" where
  "ndigits n = (if n < 10 then 1 else Suc (ndigits (n div 10)))"

declare ndigits.simps [simp del]

definition adjusted :: "decimal \<Rightarrow> int" where
  \<comment> \<open>The exponent of the most significant digit of a non-zero value.\<close>
  "adjusted x = (let (p, q) = quotient_of \<bar>x\<bar>;
                     k = int (ndigits p) - int (ndigits q)
                 in if 10 powi k \<le> \<bar>x\<bar> then k else k - 1)"

definition round_half_even :: "rat \<Rightarrow> int" where
  "round_half_even y = (let f = \<lfloor>y\<rfloor>; d = y - of_int f
       in if d < 1 / 2 then f else if 1 / 2 < d then f + 1
          else if even f then f else f + 1)"

definition dfix :: "rat \<Rightarrow> decimal" where
  \<comment> \<open>Round to \<open>prec\<close> significant digits, ties to even.\<close>
  "dfix x = (if x = 0 then 0
             else let s = 10 powi (adjusted x - (int prec - 1))
                  in of_int (round_half_even (x / s)) * s)"

definition ulp :: "rat \<Rightarrow> rat" where
  \<comment> \<open>The weight of the last of the \<open>prec\<close> digits that \<open>dfix\<close> keeps.\<close>
  "ulp x = 10 powi (adjusted x - (int prec - 1))"

definition Decimal :: "int \<Rightarrow> decimal" where
  \<comment> \<open>\<open>Decimal(n)\<close> and \<open>Decimal(str(n))\<close> for an int: exact, the constructor does not round.\<close>
  "Decimal n = of_int n"

definition dadd :: "decimal \<Rightarrow> decimal \<Rightarrow> decimal" where
  "dadd x y = dfix (x + y)"

definition dsub :: "decimal \<Rightarrow> decimal \<Rightarrow> decimal" where
  "dsub x y = dfix (x - y)"

definition dmul :: "decimal \<Rightarrow> decimal \<Rightarrow> decimal" where
  "dmul x y = dfix (x * y)"

definition ddiv :: "decimal \<Rightarrow> decimal \<Rightarrow> error + decimal" where
  "ddiv x y = (if y = 0 then (if x = 0 then Inl InvalidOperation else Inl DivisionByZero)
               else Inr (dfix (x / y)))"

definition dabs :: "decimal \<Rightarrow> decimal" where
  \<comment> \<open>\<open>abs\<close> of a Decimal also rounds to the context.\<close>
  "dabs x = dfix \<bar>x\<bar>"

section \<open>Constants\<close>

definition RAY :: decimal where
  "RAY = 10 ^ 27"

definition DAYS_IN_YEAR :: decimal where
  "DAYS_IN_YEAR = 365"

definition SECONDS_IN_YEAR :: decimal where
  "SECONDS_IN_YEAR = 31536000"

section \<open>The growth-factor and loss functions\<close>

definition calculate_linear_growth_factor :: "int \<Rightarrow> int \<Rightarrow> error + decimal" where
  "calculate_linear_growth_factor rate_bps time_seconds =
     and_then (ddiv (Decimal rate_bps) (Decimal 10000)) (\<lambda>rate_decimal.
     and_then (ddiv rate_decimal SECONDS_IN_YEAR) (\<lambda>rate_per_second.
     Inr (dadd (Decimal 1) (dmul rate_per_second (Decimal time_seconds)))))"

text \<open>
  \<open>calculate_continuous_compounding_factor\<close> computes the Decimal \<open>exponent\<close> and then
  evaluates \<open>Decimal(str(math.exp(float(exponent))))\<close>. The double-precision exponential
  of the C library and the conversions around it are not part of this script; that whole
  step is the parameter \<open>exp_via_float\<close>, which may raise (\<open>math.exp\<close> raises
  \<open>OverflowError\<close>).
\<close>

definition exponent :: "int \<Rightarrow> int \<Rightarrow> error + decimal" where
  "exponent rate_bps time_seconds =
     and_then (ddiv (Decimal rate_bps) (Decimal 10000)) (\<lambda>rate_decimal.
     and_then (ddiv rate_decimal SECONDS_IN_YEAR) (\<lambda>rate_per_second.
     Inr (dmul rate_per_second (Decimal time_seconds))))"

definition calculate_continuous_compounding_factor ::
    "(decimal \<Rightarrow> error + decimal) \<Rightarrow> int \<Rightarrow> int \<Rightarrow> error + decimal" where
  "calculate_continuous_compounding_factor exp_via_float rate_bps time_seconds =
     and_then (exponent rate_bps time_seconds) exp_via_float"

text \<open>
  What \<open>exp_via_float\<close> returns is the Decimal of the string of a binary64 float.
  Python prints a float with the shortest digit string that reads back to the same float,
  which never needs more than 17 significant digits. \<open>binary64_repr\<close> says that a Decimal
  has a coefficient of at most 17 digits.
\<close>

definition binary64_repr :: "decimal \<Rightarrow> bool" where
  "binary64_repr v \<longleftrightarrow> (\<exists>m e. \<bar>m\<bar> < 10 ^ 17 \<and> v = of_int m * 10 powi e)"

definition calculate_precision_loss :: "decimal \<Rightarrow> decimal \<Rightarrow> error + decimal" where
  "calculate_precision_loss linear_factor continuous_factor =
     (if continuous_factor \<le> linear_factor then Inr (Decimal 0)
      else and_then (ddiv (dsub continuous_factor linear_factor) (Decimal 1)) (\<lambda>q.
           Inr (dmul q (Decimal 10000))))"

section \<open>The contract path and the exact path\<close>

text \<open>The bodies of the scenario loops, as functions of the scenario's parameters.\<close>

definition contract_rate_per_second :: "int \<Rightarrow> error + decimal" where
  "contract_rate_per_second rate_bps =
     and_then (ddiv (dmul (Decimal rate_bps) RAY) (Decimal 10000)) (\<lambda>contract_annual_rate_ray.
     ddiv contract_annual_rate_ray SECONDS_IN_YEAR)"

definition exact_rate_per_second :: "int \<Rightarrow> error + decimal" where
  "exact_rate_per_second rate_bps =
     and_then (ddiv (Decimal rate_bps) (Decimal 10000)) (\<lambda>a.
     and_then (ddiv a SECONDS_IN_YEAR) (\<lambda>b.
     Inr (dmul b RAY)))"

definition loss_bps :: "decimal \<Rightarrow> decimal \<Rightarrow> error + decimal" where
  \<comment> \<open>\<open>abs(exact - contract) / RAY * Decimal('10000')\<close>\<close>
  "loss_bps exact contract =
     and_then (ddiv (dabs (dsub exact contract)) RAY) (\<lambda>q. Inr (dmul q (Decimal 10000)))"

definition rate_precision_loss :: "int \<Rightarrow> error + decimal" where
  "rate_precision_loss rate_bps =
     and_then (contract_rate_per_second rate_bps) (\<lambda>c.
     and_then (exact_rate_per_second rate_bps) (\<lambda>e.
     loss_bps e c))"

definition contract_growth_factor :: "int \<Rightarrow> int \<Rightarrow> error + decimal" where
  "contract_growth_factor rate_bps time_seconds =
     and_then (contract_rate_per_second rate_bps) (\<lambda>contract_rate_per_second.
     Inr (dadd RAY (dmul contract_rate_per_second (Decimal time_seconds))))"

definition exact_growth_factor :: "int \<Rightarrow> int \<Rightarrow> error + decimal" where
  "exact_growth_factor rate_bps time_seconds =
     and_then (exact_rate_per_second rate_bps) (\<lambda>exact_rate_per_second.
     Inr (dadd RAY (dmul exact_rate_per_second (Decimal time_seconds))))"

definition growth_precision_loss :: "int \<Rightarrow> int \<Rightarrow> error + decimal" where
  "growth_precision_loss rate_bps time_seconds =
     and_then (contract_growth_factor rate_bps time_seconds) (\<lambda>c.
     and_then (exact_growth_factor rate_bps time_seconds) (\<lambda>e.
     loss_bps e c))"

definition yield_index_update :: "decimal \<Rightarrow> decimal \<Rightarrow> error + decimal" where
  \<comment> \<open>\<open>yield_index * growth_factor / RAY\<close>\<close>
  "yield_index_update yield_index growth_factor = ddiv (dmul yield_index growth_factor) RAY"

section \<open>The cumulative yield-index scenario\<close>

text \<open>
  The inner loop of \<open>analyze_cumulative_yield_index_precision\<close>: the state is the pair of
  the contract index and the exact index, updated once per iteration.
\<close>

fun cumulative_updates :: "int \<Rightarrow> int \<Rightarrow> nat \<Rightarrow> decimal \<times> decimal \<Rightarrow> error + decimal \<times> decimal" where
  "cumulative_updates rate_bps update_interval 0 s = Inr s"
| "cumulative_updates rate_bps update_interval (Suc n) s =
     and_then (contract_growth_factor rate_bps update_interval) (\<lambda>cg.
     and_then (yield_index_update (fst s) cg) (\<lambda>c.
     and_then (exact_growth_factor rate_bps update_interval) (\<lambda>eg.
     and_then (yield_index_update (snd s) eg) (\<lambda>e.
     cumulative_updates rate_bps update_interval n (c, e)))))"

record cumulative_row =
  updates_count :: int
  contract_yield_index :: decimal
  exact_yield_index :: decimal
  cumulative_precision_loss :: decimal

definition cumulative_scenario :: "int \<Rightarrow> int \<Rightarrow> int \<Rightarrow> error + cumulative_row" where
  "cumulative_scenario rate_bps total_time update_interval =
     and_then (py_floordiv total_time update_interval) (\<lambda>n.
     and_then (cumulative_updates rate_bps update_interval (nat n) (RAY, RAY)) (\<lambda>s.
     and_then (loss_bps (snd s) (fst s)) (\<lambda>l.
     Inr \<lparr>updates_count = n, contract_yield_index = fst s,
          exact_yield_index = snd s, cumulative_precision_loss = l\<rparr>)))"

section \<open>The extreme yield-index scenarios\<close>

definition contract_final_index :: "int \<Rightarrow> int \<Rightarrow> error + decimal" where
  "contract_final_index rate_bps time_seconds =
     and_then (contract_growth_factor rate_bps time_seconds) (\<lambda>g. yield_index_update RAY g)"

definition exact_final_index :: "int \<Rightarrow> int \<Rightarrow> error + decimal" where
  "exact_final_index rate_bps time_seconds =
     and_then (exact_growth_factor rate_bps time_seconds) (\<lambda>g. yield_index_update RAY g)"

definition extreme_precision_loss :: "int \<Rightarrow> int \<Rightarrow> error + decimal" where
  "extreme_precision_loss rate_bps time_seconds =
     and_then (contract_final_index rate_bps time_seconds) (\<lambda>c.
     and_then (exact_final_index rate_bps time_seconds) (\<lambda>e.
     loss_bps e c))"

section \<open>Contract data against the linear factor\<close>

definition difference_bps :: "int \<Rightarrow> int \<Rightarrow> int \<Rightarrow> error + decimal" where
  \<comment> \<open>One row of \<open>analyze_contract_linear_growth_factors\<close>.\<close>
  "difference_bps rate_bps period_sec contract_growth_factor_ray =
     and_then (ddiv (Decimal contract_growth_factor_ray) RAY) (\<lambda>contract_growth_factor.
     and_then (calculate_linear_growth_factor rate_bps period_sec) (\<lambda>python_growth_factor.
     Inr (dmul (dabs (dsub contract_growth_factor python_growth_factor)) (Decimal 10000))))"

section \<open>The update-frequency scenario\<close>

definition frequency_updates_count :: "int \<Rightarrow> int \<Rightarrow> int" where
  \<comment> \<open>\<open>total_time // interval if interval > 0 else 1\<close>\<close>
  "frequency_updates_count total_time interval =
     (if interval > 0 then total_time div interval else 1)"

fun cumulative_linear :: "int \<Rightarrow> int \<Rightarrow> nat \<Rightarrow> decimal \<Rightarrow> error + decimal" where
  "cumulative_linear rate_bps interval 0 cumulative_linear_factor = Inr cumulative_linear_factor"
| "cumulative_linear rate_bps interval (Suc n) cumulative_linear_factor =
     and_then (calculate_linear_growth_factor rate_bps interval) (\<lambda>update_linear_factor.
     cumulative_linear rate_bps interval n (dmul cumulative_linear_factor update_linear_factor))"

record frequency_row =
  updates_performed :: int
  cumulative_linear_factor :: decimal
  theoretical_continuous_factor :: decimal
  precision_loss :: decimal

definition frequency_scenario ::
    "(decimal \<Rightarrow> error + decimal) \<Rightarrow> int \<Rightarrow> int \<Rightarrow> int \<Rightarrow> error + frequency_row" where
  "frequency_scenario exp_via_float rate_bps total_time interval =
     (let n = frequency_updates_count total_time interval in
      and_then (cumulative_linear rate_bps interval (nat n) (Decimal 1)) (\<lambda>lin.
      and_then (calculate_continuous_compounding_factor exp_via_float rate_bps total_time) (\<lambda>con.
      and_then (calculate_precision_loss lin con) (\<lambda>l.
      Inr \<lparr>updates_performed = n, cumulative_linear_factor = lin,
           theoretical_continuous_factor = con, precision_loss = l\<rparr>))))"

section \<open>The fixed-point formulas as the specification words them\<close>

definition spec_rate_per_second :: "int \<Rightarrow> int" where
  \<comment> \<open>\<open>floor(floor(rateBasisPoints * RAY / 10000) / secondsPerYear)\<close>\<close>
  "spec_rate_per_second rate_bps = (rate_bps * 10 ^ 27 div 10000) div (365 * 86400)"

definition spec_next_index :: "int \<Rightarrow> int \<Rightarrow> int" where
  \<comment> \<open>\<open>floor(currentIndex * growthFactor / RAY)\<close>\<close>
  "spec_next_index current_index growth_factor = current_index * growth_factor div 10 ^ 27"

section \<open>Auxiliary definitions for the proofs\<close>

definition rate_core :: "int \<Rightarrow> rat" where
  \<comment> \<open>The value both rate derivations return, see \<open>contract_rate_value\<close> and \<open>exact_rate_value\<close>.\<close>
  "rate_core rate_bps = dfix (dfix (of_int rate_bps) / 31536000) * 10 ^ 23"

section \<open>Properties of the rounding\<close>

lemma ndigits_pos: "0 < ndigits n"
  by (subst ndigits.simps) simp

lemma ndigits_bounds:
  "0 < n \<Longrightarrow> 10 ^ (ndigits n - 1) \<le> n \<and> n < 10 ^ ndigits n"
proof (induction n rule: ndigits.induct)
  case (1 n)
  show ?case
  proof (cases "n < 10")
    case True
    then have "ndigits n = 1" by (subst ndigits.simps) simp
    with True 1(2) show ?thesis by simp
  next
    case False
    then have nd: "ndigits n = Suc (ndigits (n div 10))" by (subst ndigits.simps) simp
    from False have "0 < n div 10" by simp
    with 1(1) False have ih: "10 ^ (ndigits (n div 10) - 1) \<le> n div 10" "n div 10 < 10 ^ ndigits (n div 10)"
      by simp_all
    have p: "0 < ndigits (n div 10)" by (rule ndigits_pos)
    have "10 ^ (ndigits n - 1) = 10 * 10 ^ (ndigits (n div 10) - 1)" (is "?l = _")
      using p nd by (cases "ndigits (n div 10)") simp_all
    also have "\<dots> \<le> 10 * (n div 10)" using ih(1) by simp
    also have "\<dots> \<le> n" by simp
    finally have lo: "?l \<le> n" .
    have "n < 10 * (n div 10) + 10" by presburger
    also have "\<dots> \<le> 10 * 10 ^ ndigits (n div 10)" using ih(2) by simp
    finally have hi: "n < 10 ^ ndigits n" using nd by simp
    from lo hi show ?thesis by simp
  qed
qed

lemma powi_unique:
  fixes y :: rat
  assumes "10 powi a \<le> y" "y < 10 powi (a + 1)" "10 powi b \<le> y" "y < 10 powi (b + 1)"
  shows "a = b"
proof -
  have "(10::rat) powi a < 10 powi (b + 1)" using assms by linarith
  then have 1: "a < b + 1"
    by (metis linorder_not_less power_int_increasing one_le_numeral)
  have "(10::rat) powi b < 10 powi (a + 1)" using assms by linarith
  then have 2: "b < a + 1"
    by (metis linorder_not_less power_int_increasing one_le_numeral)
  from 1 2 show ?thesis by simp
qed

lemma adjusted_bounds:
  assumes "x \<noteq> 0"
  shows "10 powi adjusted x \<le> \<bar>x\<bar>" and "\<bar>x\<bar> < 10 powi (adjusted x + 1)"
proof -
  obtain p q where pq: "quotient_of \<bar>x\<bar> = (p, q)" by (cases "quotient_of \<bar>x\<bar>")
  then have q: "0 < q" and x: "\<bar>x\<bar> = of_int p / of_int q"
    by (rule quotient_of_denom_pos, rule quotient_of_div)
  from assms have "0 < \<bar>x\<bar>" by simp
  with x q have p: "0 < p" by (simp add: zero_less_divide_iff)
  define k where "k = int (ndigits p) - int (ndigits q)"
  note bp = ndigits_bounds[OF p] and bq = ndigits_bounds[OF q]
  have qr: "(0::rat) < of_int q" using q by simp
  have up: "\<bar>x\<bar> < 10 powi (k + 1)"
  proof -
    have "(of_int p :: rat) < of_int (10 ^ ndigits p)" using bp by (simp del: of_int_power)
    then have 1: "(of_int p :: rat) < 10 powi int (ndigits p)" by simp
    have "(of_int (10 ^ (ndigits q - 1)) :: rat) \<le> of_int q" using bq by (simp del: of_int_power)
    then have 2: "(10::rat) powi (int (ndigits q) - 1) \<le> of_int q"
      using ndigits_pos[of q] by (simp add: power_int_def nat_diff_distrib')
    have "(10::rat) powi (k + 1) * 10 powi (int (ndigits q) - 1) = 10 powi int (ndigits p)"
      unfolding k_def by (simp flip: power_int_add)
    then have "of_int p < (10::rat) powi (k + 1) * 10 powi (int (ndigits q) - 1)" using 1 by simp
    also have "\<dots> \<le> 10 powi (k + 1) * of_int q" using 2 by (intro mult_left_mono) simp_all
    finally show ?thesis using qr x by (simp add: pos_divide_less_eq)
  qed
  have lo: "10 powi (k - 1) < \<bar>x\<bar>"
  proof -
    have "(of_int (10 ^ (ndigits p - 1)) :: rat) \<le> of_int p" using bp by (simp del: of_int_power)
    then have 1: "(10::rat) powi (int (ndigits p) - 1) \<le> of_int p"
      using ndigits_pos[of p] by (simp add: power_int_def nat_diff_distrib')
    have "(of_int q :: rat) < of_int (10 ^ ndigits q)" using bq by (simp del: of_int_power)
    then have 2: "(of_int q :: rat) < 10 powi int (ndigits q)" by simp
    have e: "(10::rat) powi (k - 1) * 10 powi int (ndigits q) = 10 powi (int (ndigits p) - 1)"
      unfolding k_def by (simp del: power_int_of_nat flip: power_int_add)
    have "(10::rat) powi (k - 1) * of_int q < 10 powi (k - 1) * 10 powi int (ndigits q)"
      using 2 by (intro mult_strict_left_mono) simp_all
    also have "\<dots> \<le> of_int p" using 1 e by simp
    finally show ?thesis using qr x by (simp add: pos_less_divide_eq)
  qed
  have adj: "adjusted x = (if 10 powi k \<le> \<bar>x\<bar> then k else k - 1)"
    by (simp add: adjusted_def pq k_def Let_def)
  show "10 powi adjusted x \<le> \<bar>x\<bar>" using adj lo by (simp split: if_splits)
  show "\<bar>x\<bar> < 10 powi (adjusted x + 1)" using adj up by (simp split: if_splits)
qed

lemma adjusted_eqI:
  assumes "10 powi k \<le> \<bar>x\<bar>" "\<bar>x\<bar> < 10 powi (k + 1)"
  shows "adjusted x = k"
proof -
  have "0 < \<bar>x\<bar>" using assms(1) by (smt (verit) zero_less_power_int zero_less_numeral order_less_le_trans)
  then have "x \<noteq> 0" by simp
  from adjusted_bounds[OF this] assms show ?thesis by (rule powi_unique)
qed

lemma ulp_pos: "0 < ulp x"
  by (simp add: ulp_def)

lemma dfix_ulp: "x \<noteq> 0 \<Longrightarrow> dfix x = of_int (round_half_even (x / ulp x)) * ulp x"
  by (simp add: dfix_def ulp_def Let_def)

lemma rhe_of_int: "round_half_even (of_int m) = m"
  by (simp add: round_half_even_def)

lemma rhe_bound: "\<bar>of_int (round_half_even y) - y\<bar> \<le> 1 / 2"
proof -
  have "of_int \<lfloor>y\<rfloor> \<le> y" "y < of_int \<lfloor>y\<rfloor> + 1" by linarith+
  then show ?thesis by (auto simp: round_half_even_def Let_def)
qed

lemma rhe_mono:
  assumes "x \<le> y"
  shows "round_half_even x \<le> round_half_even y"
proof (rule ccontr)
  assume "\<not> ?thesis"
  then have gt: "round_half_even y + 1 \<le> round_half_even x" by simp
  then have "of_int (round_half_even y) + (1::rat) \<le> of_int (round_half_even x)"
    by (metis of_int_1 of_int_add of_int_le_iff)
  moreover note rhe_bound[of x] rhe_bound[of y]
  ultimately have "y \<le> x" by linarith
  with assms have "x = y" by simp
  with gt show False by simp
qed

lemma rhe_neg: "round_half_even (- y) = - round_half_even y"
proof (cases "y = of_int \<lfloor>y\<rfloor>")
  case True
  then obtain m where "y = of_int m" ..
  then show ?thesis by (simp add: rhe_of_int flip: of_int_minus)
next
  case False
  have b: "of_int \<lfloor>y\<rfloor> \<le> y" "y < of_int \<lfloor>y\<rfloor> + 1" by linarith+
  with False have lt: "of_int \<lfloor>y\<rfloor> < y" by linarith
  have fl: "\<lfloor>- y\<rfloor> = - \<lfloor>y\<rfloor> - 1"
    using lt b(2) by (intro floor_unique) simp_all
  show ?thesis
    using lt b(2) unfolding round_half_even_def Let_def fl
    by (auto simp: algebra_simps)
qed

lemma adjusted_neg: "adjusted (- x) = adjusted x"
  by (simp add: adjusted_def)

lemma ulp_neg: "ulp (- x) = ulp x"
  by (simp add: ulp_def adjusted_neg)

lemma dfix_0: "dfix 0 = 0"
  by (simp add: dfix_def)

lemma dfix_neg: "dfix (- x) = - dfix x"
  by (cases "x = 0") (simp_all add: dfix_ulp ulp_neg rhe_neg dfix_0)

lemma adjusted_scale:
  assumes "x \<noteq> 0"
  shows "adjusted (x * 10 powi n) = adjusted x + n"
proof (rule adjusted_eqI)
  have p: "(0::rat) < 10 powi n" by simp
  have a: "\<bar>x * 10 powi n\<bar> = \<bar>x\<bar> * 10 powi n" by (simp add: abs_mult)
  have "10 powi adjusted x * 10 powi n \<le> \<bar>x\<bar> * (10::rat) powi n"
    using adjusted_bounds(1)[OF assms] p by (intro mult_right_mono) simp_all
  then show "10 powi (adjusted x + n) \<le> \<bar>x * 10 powi n\<bar>"
    by (simp add: a power_int_add)
  have "\<bar>x\<bar> * (10::rat) powi n < 10 powi (adjusted x + 1) * 10 powi n"
    using adjusted_bounds(2)[OF assms] p by (intro mult_strict_right_mono) simp_all
  then show "\<bar>x * 10 powi n\<bar> < 10 powi (adjusted x + n + 1)"
    by (simp add: a power_int_add)
qed

lemma ulp_scale: "x \<noteq> 0 \<Longrightarrow> ulp (x * 10 powi n) = ulp x * 10 powi n"
  by (simp add: ulp_def adjusted_scale power_int_add power_int_diff)

lemma dfix_scale: "dfix (x * 10 powi n) = dfix x * 10 powi n"
proof (cases "x = 0")
  case True
  then show ?thesis by (simp add: dfix_0)
next
  case False
  then have nz: "x * 10 powi n \<noteq> 0" by simp
  have "x * 10 powi n / (ulp x * 10 powi n) = x / ulp x" by simp
  then show ?thesis
    by (simp add: dfix_ulp[OF nz] dfix_ulp[OF False] ulp_scale[OF False])
qed

lemma dfix_scale_div: "dfix (x / 10 powi n) = dfix x / 10 powi n"
  using dfix_scale[of x "- n"] by (simp add: power_int_minus field_simps)

lemma dfix_of_int_powi:
  assumes "\<bar>m\<bar> < 10 ^ prec"
  shows "dfix (of_int m * 10 powi e) = of_int m * 10 powi e"
proof (cases "m = 0")
  case True
  then show ?thesis by (simp add: dfix_0)
next
  case False
  define x :: rat where "x = of_int m * 10 powi e"
  have nz: "x \<noteq> 0" using False by (simp add: x_def)
  define a where "a = adjusted x"
  have "(of_int \<bar>m\<bar> :: rat) < of_int (10 ^ prec)" using assms by (simp only: of_int_less_iff)
  then have m: "(of_int \<bar>m\<bar> :: rat) < 10 powi int prec" by simp
  have "10 powi a \<le> \<bar>x\<bar>" using adjusted_bounds(1)[OF nz] by (simp add: a_def)
  also have "\<bar>x\<bar> = of_int \<bar>m\<bar> * 10 powi e" by (simp add: x_def abs_mult)
  also have "\<dots> < 10 powi int prec * 10 powi e"
    using m by (intro mult_strict_right_mono) simp_all
  also have "\<dots> = 10 powi (int prec + e)" by (simp add: power_int_add)
  finally have "a < int prec + e"
    by (metis linorder_not_less power_int_increasing one_le_numeral)
  then obtain j :: nat where j: "e - (a - (int prec - 1)) = int j"
    by (metis add_diff_cancel_left' diff_diff_eq2 diff_ge_0_iff_ge nonneg_int_cases zless_imp_add1_zle add.commute)
  have "x / ulp x = of_int m * 10 powi (e - (a - (int prec - 1)))"
    by (simp add: x_def ulp_def a_def power_int_diff)
  also have "\<dots> = of_int (m * 10 ^ j)" unfolding j by simp
  finally have "round_half_even (x / ulp x) = m * 10 ^ j" by (simp only: rhe_of_int)
  then have "dfix x = of_int (m * 10 ^ j) * ulp x" by (simp only: dfix_ulp[OF nz])
  also have "\<dots> = of_int m * (10 powi int j * 10 powi (a - (int prec - 1)))"
    by (simp add: ulp_def a_def)
  also have "10 powi int j * 10 powi (a - (int prec - 1)) = (10::rat) powi e"
    unfolding j[symmetric] by (simp flip: power_int_add)
  finally show ?thesis by (simp add: x_def)
qed

lemma scaled_range:
  assumes "0 < x"
  shows "10 powi (int prec - 1) \<le> x / ulp x" and "x / ulp x < 10 powi int prec"
proof -
  have nz: "x \<noteq> 0" using assms by simp
  have ax: "\<bar>x\<bar> = x" using assms by simp
  have "10 powi (int prec - 1) * ulp x = 10 powi adjusted x"
    by (simp add: ulp_def flip: power_int_add)
  then show "10 powi (int prec - 1) \<le> x / ulp x"
    using adjusted_bounds(1)[OF nz] ulp_pos[of x] by (simp add: pos_le_divide_eq ax)
  have "10 powi int prec * ulp x = 10 powi (adjusted x + 1)"
    by (simp add: ulp_def del: power_int_of_nat flip: power_int_add)
  then show "x / ulp x < 10 powi int prec"
    using adjusted_bounds(2)[OF nz] ulp_pos[of x] by (simp add: pos_divide_less_eq ax)
qed

lemma rhe_range:
  assumes "0 < x"
  shows "10 ^ (prec - 1) \<le> round_half_even (x / ulp x)"
    and "round_half_even (x / ulp x) \<le> 10 ^ prec"
proof -
  have "(10::rat) powi (int prec - 1) = of_int (10 ^ (prec - 1))"
    by (simp add: prec_def)
  then have "round_half_even ((10::rat) powi (int prec - 1)) = 10 ^ (prec - 1)"
    by (simp only: rhe_of_int)
  then show "10 ^ (prec - 1) \<le> round_half_even (x / ulp x)"
    using rhe_mono[OF scaled_range(1)[OF assms]] by simp
  have "(10::rat) powi int prec = of_int (10 ^ prec)" by simp
  then have "round_half_even ((10::rat) powi int prec) = 10 ^ prec"
    by (simp only: rhe_of_int)
  then show "round_half_even (x / ulp x) \<le> 10 ^ prec"
    using rhe_mono[OF less_imp_le[OF scaled_range(2)[OF assms]]] by simp
qed

lemma dfix_lower:
  assumes "0 < x"
  shows "10 powi adjusted x \<le> dfix x"
proof -
  have nz: "x \<noteq> 0" using assms by simp
  have "(of_int (10 ^ (prec - 1)) :: rat) \<le> of_int (round_half_even (x / ulp x))"
    using rhe_range(1)[OF assms] by (simp only: of_int_le_iff)
  then have "of_int (10 ^ (prec - 1)) * ulp x \<le> dfix x"
    using ulp_pos[of x] by (simp add: dfix_ulp[OF nz])
  moreover have "(of_int (10 ^ (prec - 1)) :: rat) = 10 powi (int prec - 1)"
    by (simp add: prec_def)
  moreover have "(10::rat) powi (int prec - 1) * ulp x = 10 powi adjusted x"
    by (simp add: ulp_def del: power_int_of_nat flip: power_int_add)
  ultimately show ?thesis by simp
qed

lemma dfix_upper:
  assumes "0 < x"
  shows "dfix x \<le> 10 powi (adjusted x + 1)"
proof -
  have nz: "x \<noteq> 0" using assms by simp
  have "(of_int (round_half_even (x / ulp x)) :: rat) \<le> of_int (10 ^ prec)"
    using rhe_range(2)[OF assms] by (simp only: of_int_le_iff)
  then have "dfix x \<le> of_int (10 ^ prec) * ulp x"
    using ulp_pos[of x] by (simp add: dfix_ulp[OF nz])
  moreover have "(of_int (10 ^ prec) :: rat) = 10 powi int prec"
    by simp
  moreover have "(10::rat) powi int prec * ulp x = 10 powi (adjusted x + 1)"
    by (simp add: ulp_def del: power_int_of_nat flip: power_int_add)
  ultimately show ?thesis by simp
qed

lemma dfix_pos: "0 < x \<Longrightarrow> 0 < dfix x"
  using dfix_lower[of x] zero_less_power_int[of "10::rat" "adjusted x"] by linarith

lemma dfix_neg_neg: "x < 0 \<Longrightarrow> dfix x < 0"
  using dfix_pos[of "- x"] by (simp add: dfix_neg)

lemma dfix_eq_0_iff: "dfix x = 0 \<longleftrightarrow> x = 0"
  using dfix_pos[of x] dfix_neg_neg[of x] by (cases "x = 0") (auto simp: dfix_0 neq_iff)

lemma dfix_err: "\<bar>dfix x - x\<bar> \<le> ulp x / 2"
proof (cases "x = 0")
  case True
  then show ?thesis using ulp_pos[of 0] by (simp add: dfix_0)
next
  case False
  have u: "0 < ulp x" by (rule ulp_pos)
  have "dfix x - x = (of_int (round_half_even (x / ulp x)) - x / ulp x) * ulp x"
    using u by (simp add: dfix_ulp[OF False] field_simps)
  then have "\<bar>dfix x - x\<bar> = \<bar>of_int (round_half_even (x / ulp x)) - x / ulp x\<bar> * ulp x"
    using u by (simp add: abs_mult)
  also have "\<dots> \<le> 1 / 2 * ulp x"
    using rhe_bound[of "x / ulp x"] u by (intro mult_right_mono) simp_all
  finally show ?thesis by simp
qed

lemma powi_plus1: "(10::rat) powi (k + 1) = 10 powi k * 10"
  by (simp add: power_int_add)

lemma dfix_idem_pos:
  assumes "0 < x"
  shows "dfix (dfix x) = dfix x"
proof -
  have nz: "x \<noteq> 0" using assms by simp
  define m where "m = round_half_even (x / ulp x)"
  have d: "dfix x = of_int m * 10 powi (adjusted x - (int prec - 1))"
    by (simp add: dfix_ulp[OF nz] m_def ulp_def)
  have r: "10 ^ (prec - 1) \<le> m" "m \<le> 10 ^ prec"
    using rhe_range[OF assms] by (simp_all add: m_def)
  show ?thesis
  proof (cases "m = 10 ^ prec")
    case False
    moreover have "(0::int) < 10 ^ (prec - 1)" by simp
    ultimately have "\<bar>m\<bar> < 10 ^ prec" using r by linarith
    then show ?thesis unfolding d by (rule dfix_of_int_powi)
  next
    case True
    have "(10::rat) powi (adjusted x - (int prec - 1) + 1) = 10 powi (adjusted x - (int prec - 1)) * 10"
      by (rule powi_plus1)
    moreover have "(of_int (10 ^ prec) :: rat) = of_int (10 ^ (prec - 1)) * 10"
      by (simp add: prec_def)
    ultimately have "dfix x = of_int (10 ^ (prec - 1)) * 10 powi (adjusted x - (int prec - 1) + 1)"
      unfolding d True by (simp only: mult.assoc mult.commute mult.left_commute)
    moreover have "\<bar>10 ^ (prec - 1) :: int\<bar> < 10 ^ prec" by (simp add: prec_def)
    ultimately show ?thesis by (simp only: dfix_of_int_powi)
  qed
qed

lemma dfix_idem: "dfix (dfix x) = dfix x"
proof -
  consider "x = 0" | "0 < x" | "x < 0" by linarith
  then show ?thesis
  proof cases
    case 1 then show ?thesis by (simp add: dfix_0)
  next
    case 2 then show ?thesis by (rule dfix_idem_pos)
  next
    case 3
    then have "dfix (dfix (- x)) = dfix (- x)" by (intro dfix_idem_pos) simp
    then show ?thesis by (simp add: dfix_neg)
  qed
qed

lemma dfix_mono_pos:
  assumes "0 < x" "x \<le> y"
  shows "dfix x \<le> dfix y"
proof -
  have y: "0 < y" using assms by simp
  have nx: "x \<noteq> 0" and ny: "y \<noteq> 0" using assms by simp_all
  have "10 powi adjusted x \<le> \<bar>x\<bar>" by (rule adjusted_bounds(1)[OF nx])
  also have "\<bar>x\<bar> \<le> \<bar>y\<bar>" using assms by simp
  also have "\<bar>y\<bar> < 10 powi (adjusted y + 1)" by (rule adjusted_bounds(2)[OF ny])
  finally have "adjusted x < adjusted y + 1"
    by (metis linorder_not_less power_int_increasing one_le_numeral)
  then consider "adjusted x = adjusted y" | "adjusted x + 1 \<le> adjusted y" by linarith
  then show ?thesis
  proof cases
    case 1
    then have u: "ulp x = ulp y" by (simp add: ulp_def)
    have "x / ulp y \<le> y / ulp y" using assms ulp_pos[of y] by (simp add: divide_right_mono)
    then have "round_half_even (x / ulp y) \<le> round_half_even (y / ulp y)" by (rule rhe_mono)
    then have "(of_int (round_half_even (x / ulp y)) :: rat) \<le> of_int (round_half_even (y / ulp y))"
      by (simp only: of_int_le_iff)
    then show ?thesis using ulp_pos[of y]
      by (simp add: dfix_ulp[OF nx] dfix_ulp[OF ny] u)
  next
    case 2
    have "dfix x \<le> 10 powi (adjusted x + 1)" by (rule dfix_upper[OF assms(1)])
    also have "\<dots> \<le> 10 powi adjusted y" using 2 by (intro power_int_increasing) simp_all
    also have "\<dots> \<le> dfix y" by (rule dfix_lower[OF y])
    finally show ?thesis .
  qed
qed

lemma dfix_mono:
  assumes "x \<le> y"
  shows "dfix x \<le> dfix y"
proof -
  consider "0 < x" | "y < 0" | "x \<le> 0" "0 \<le> y" by linarith
  then show ?thesis
  proof cases
    case 1 then show ?thesis using assms by (rule dfix_mono_pos)
  next
    case 2
    then have "dfix (- y) \<le> dfix (- x)" using assms by (intro dfix_mono_pos) simp_all
    then show ?thesis by (simp add: dfix_neg)
  next
    case 3
    have "dfix x \<le> 0" using 3(1) dfix_neg_neg[of x] by (cases "x = 0") (simp_all add: dfix_0)
    moreover have "0 \<le> dfix y" using 3(2) dfix_pos[of y] by (cases "y = 0") (simp_all add: dfix_0)
    ultimately show ?thesis by simp
  qed
qed

lemma rhe_eqI:
  assumes "\<bar>y - of_int m\<bar> < 1 / 2"
  shows "round_half_even y = m"
proof -
  have "\<bar>of_int (round_half_even y) - y\<bar> \<le> 1 / 2" by (rule rhe_bound)
  with assms have "\<bar>(of_int (round_half_even y) :: rat) - of_int m\<bar> < 1" by linarith
  then have "\<bar>(of_int (round_half_even y - m) :: rat)\<bar> < of_int 1" by simp
  then have "\<bar>round_half_even y - m\<bar> < 1" by (simp only: of_int_less_iff flip: of_int_abs)
  then show ?thesis by simp
qed

text \<open>
  A rounding is checked from its result: the exponent \<open>k\<close> of the leading digit and the
  50-digit coefficient \<open>m\<close> are given, and three inequalities between numerals remain.
\<close>

lemma dfix_eqI:
  assumes "10 powi k \<le> \<bar>x\<bar>" "\<bar>x\<bar> < 10 powi (k + 1)"
    and "\<bar>x / 10 powi (k - 49) - of_int m\<bar> < 1 / 2"
  shows "dfix x = of_int m * 10 powi (k - 49)"
proof -
  have a: "adjusted x = k" using assms(1,2) by (rule adjusted_eqI)
  have "0 < \<bar>x\<bar>" using assms(1) zero_less_power_int[of "10::rat" k] by linarith
  then have nz: "x \<noteq> 0" by simp
  have u: "ulp x = 10 powi (k - 49)" by (simp add: ulp_def a prec_def)
  show ?thesis unfolding dfix_ulp[OF nz] u rhe_eqI[OF assms(3)] ..
qed

section \<open>The contract path against the exact path\<close>

lemma and_then_Inr: "and_then (Inr v) f = f v"
  by (simp add: and_then_def)

lemma and_then_Inl: "and_then (Inl e) f = Inl e"
  by (simp add: and_then_def)

lemma ddiv_nonzero: "y \<noteq> 0 \<Longrightarrow> ddiv x y = Inr (dfix (x / y))"
  by (simp add: ddiv_def)

lemma dfix_mult_pow10: "dfix (x * 10 ^ n) = dfix x * 10 ^ n"
  using dfix_scale[of x "int n"] by simp

lemma dfix_div_pow10: "dfix (x / 10 ^ n) = dfix x / 10 ^ n"
  using dfix_scale_div[of x "int n"] by simp

lemma ddiv_10000: "ddiv x (Decimal 10000) = Inr (dfix (x / 10000))"
  by (simp add: ddiv_def Decimal_def)

lemma ddiv_SECONDS_IN_YEAR: "ddiv x SECONDS_IN_YEAR = Inr (dfix (x / 31536000))"
  by (simp add: ddiv_def SECONDS_IN_YEAR_def)

lemma ddiv_RAY: "ddiv x RAY = Inr (dfix (x / 10 ^ 27))"
  by (simp add: ddiv_def RAY_def)

lemma contract_rate_value:
  "contract_rate_per_second rate_bps = Inr (rate_core rate_bps)"
proof -
  define R where "R = dfix (of_int rate_bps)"
  have 1: "dmul (Decimal rate_bps) RAY = R * 10 ^ 27"
    by (simp only: dmul_def Decimal_def RAY_def dfix_mult_pow10 R_def)
  have a: "R * 10 ^ 27 / 10000 = R * 10 ^ 23" by simp
  have "dfix (R * 10 ^ 27 / 10000) = dfix (R * 10 ^ 23)" by (simp only: a)
  also have "\<dots> = dfix R * 10 ^ 23" by (rule dfix_mult_pow10)
  also have "\<dots> = R * 10 ^ 23" by (simp only: R_def dfix_idem)
  finally have 2: "ddiv (dmul (Decimal rate_bps) RAY) (Decimal 10000) = Inr (R * 10 ^ 23)"
    by (simp only: ddiv_10000 1)
  have b: "R * 10 ^ 23 / 31536000 = R / 31536000 * 10 ^ 23" by simp
  have "dfix (R * 10 ^ 23 / 31536000) = dfix (R / 31536000 * 10 ^ 23)"
    by (simp only: b)
  also have "\<dots> = dfix (R / 31536000) * 10 ^ 23" by (rule dfix_mult_pow10)
  finally have 3: "ddiv (R * 10 ^ 23) SECONDS_IN_YEAR = Inr (rate_core rate_bps)"
    by (simp only: ddiv_SECONDS_IN_YEAR rate_core_def R_def)
  show ?thesis
    by (simp only: contract_rate_per_second_def 2 3 and_then_Inr)
qed

lemma exact_rate_value:
  "exact_rate_per_second rate_bps = Inr (rate_core rate_bps)"
proof -
  define R where "R = dfix (of_int rate_bps)"
  define Q where "Q = dfix (R / 31536000)"
  have a: "of_int rate_bps / (10000::rat) = of_int rate_bps / 10 ^ 4" by simp
  have "dfix (of_int rate_bps / 10000) = dfix (of_int rate_bps / 10 ^ 4)" by (simp only: a)
  also have "\<dots> = R / 10 ^ 4" unfolding R_def by (rule dfix_div_pow10)
  finally have 1: "ddiv (Decimal rate_bps) (Decimal 10000) = Inr (R / 10 ^ 4)"
    using ddiv_10000[of "Decimal rate_bps"] by (simp only: Decimal_def[of rate_bps])
  have b: "R / 10 ^ 4 / 31536000 = R / 31536000 / 10 ^ 4" by simp
  have "dfix (R / 10 ^ 4 / 31536000) = dfix (R / 31536000 / 10 ^ 4)"
    by (simp only: b)
  also have "\<dots> = Q / 10 ^ 4" unfolding Q_def by (rule dfix_div_pow10)
  finally have 2: "ddiv (R / 10 ^ 4) SECONDS_IN_YEAR = Inr (Q / 10 ^ 4)"
    by (simp only: ddiv_SECONDS_IN_YEAR)
  have c: "Q / 10 ^ 4 * 10 ^ 27 = Q * 10 ^ 23" by simp
  have "dfix (Q / 10 ^ 4 * 10 ^ 27) = dfix (Q * 10 ^ 23)" by (simp only: c)
  also have "\<dots> = dfix Q * 10 ^ 23" by (rule dfix_mult_pow10)
  also have "\<dots> = Q * 10 ^ 23" by (simp only: Q_def dfix_idem)
  finally have 3: "dmul (Q / 10 ^ 4) RAY = rate_core rate_bps"
    by (simp only: dmul_def RAY_def rate_core_def Q_def R_def)
  show ?thesis
    by (simp only: exact_rate_per_second_def 1 2 3 and_then_Inr)
qed

lemma loss_bps_same: "loss_bps v v = Inr 0"
  by (simp add: loss_bps_def dsub_def dabs_def dfix_0 ddiv_def RAY_def and_then_Inr dmul_def)

lemma growth_factor_eq:
  "contract_growth_factor rate_bps t = exact_growth_factor rate_bps t"
  by (simp only: contract_growth_factor_def exact_growth_factor_def contract_rate_value exact_rate_value)

lemma growth_factor_returns:
  "contract_growth_factor rate_bps t = Inr (dadd RAY (dmul (rate_core rate_bps) (Decimal t)))"
  by (simp only: contract_growth_factor_def contract_rate_value and_then_Inr)

lemma yield_index_update_returns:
  "yield_index_update i g = Inr (dfix (dfix (i * g) / 10 ^ 27))"
  by (simp only: yield_index_update_def ddiv_RAY dmul_def)

lemma cumulative_updates_same:
  "\<exists>v. cumulative_updates rate_bps interval n (w, w) = Inr (v, v)"
proof (induction n arbitrary: w)
  case 0
  show ?case by simp
next
  case (Suc n)
  show ?case
    using Suc.IH
    by (simp add: growth_factor_eq[symmetric] growth_factor_returns and_then_Inr yield_index_update_returns)
qed

lemma final_index_eq:
  "contract_final_index rate_bps t = exact_final_index rate_bps t"
  by (simp only: contract_final_index_def exact_final_index_def growth_factor_eq)

lemma final_index_returns:
  "\<exists>v. contract_final_index rate_bps t = Inr v"
  by (simp add: contract_final_index_def growth_factor_returns and_then_Inr yield_index_update_returns)

lemma cumulative_scenario_value:
  "\<exists>v. cumulative_scenario rate_bps total_time update_interval =
     (if update_interval = 0 then Inl ZeroDivisionError
      else Inr \<lparr>updates_count = total_time div update_interval, contract_yield_index = v,
                exact_yield_index = v, cumulative_precision_loss = 0\<rparr>)"
proof (cases "update_interval = 0")
  case True
  then show ?thesis by (simp add: cumulative_scenario_def py_floordiv_def and_then_Inl)
next
  case False
  obtain v where "cumulative_updates rate_bps update_interval (nat (total_time div update_interval)) (RAY, RAY) = Inr (v, v)"
    using cumulative_updates_same by blast
  with False show ?thesis
    by (simp add: cumulative_scenario_def py_floordiv_def and_then_Inr loss_bps_same)
qed

section \<open>Checked roundings and the loss evaluator\<close>

lemma dfix_numeral_pow10: "dfix (10 ^ n) = 10 ^ n"
  using dfix_of_int_powi[of 1 "int n"] by (simp add: prec_def)

lemma dfix_1: "dfix 1 = 1"
  using dfix_numeral_pow10[of 0] by simp

lemma dfix_int_1000: "dfix (of_int 1000) = 1000"
  using dfix_of_int_powi[of 1000 0] by (simp add: prec_def)

lemma dfix_1000_per_year:
  "dfix (1000 / 31536000)
     = 31709791983764586504312531709791983764586504312532 / 10 ^ 54"
  using dfix_eqI[of "- 5" "1000 / 31536000" "31709791983764586504312531709791983764586504312532"]
  by simp

lemma rate_core_1000:
  "rate_core 1000 = 31709791983764586504312531709791983764586504312532 / 10 ^ 31"
proof -
  have "rate_core 1000 = dfix (dfix (of_int 1000) / 31536000) * 10 ^ 23"
    by (rule rate_core_def)
  also have "dfix (of_int 1000) = 1000"
    by (rule dfix_int_1000)
  also have "dfix (1000 / 31536000) = 31709791983764586504312531709791983764586504312532 / 10 ^ 54"
    by (rule dfix_1000_per_year)
  finally show ?thesis by simp
qed

lemma dfix_index_square:
  "dfix (1000000003170979198376458650 * 1000000003170979198376458650)
     = 10000000063419584068080263765362083002560465151598 * 10 ^ 5"
  using dfix_eqI[of "54" "1000000003170979198376458650 * 1000000003170979198376458650" "10000000063419584068080263765362083002560465151598"]
  by simp

lemma calculate_precision_loss_value:
  "calculate_precision_loss a b = Inr (if b \<le> a then 0 else dfix (b - a) * 10000)"
proof -
  have "dfix (dfix (dfix (b - a) / 1) * 10 ^ 4) = dfix (dfix (dfix (b - a))) * 10 ^ 4"
    by (simp only: dfix_mult_pow10 div_by_1)
  then have "dfix (dfix (dfix (b - a) / 1) * 10000) = dfix (b - a) * 10000"
    by (simp add: dfix_idem)
  then show ?thesis
    by (simp add: calculate_precision_loss_def ddiv_def Decimal_def dsub_def dmul_def and_then_Inr)
qed

section \<open>Closed forms of the growth factors\<close>

lemma linear_growth_value:
  "calculate_linear_growth_factor rate_bps t =
     Inr (dfix (1 + dfix (dfix (dfix (of_int rate_bps / 10000) / 31536000) * of_int t)))"
  unfolding calculate_linear_growth_factor_def ddiv_10000 ddiv_SECONDS_IN_YEAR and_then_Inr
      dadd_def dmul_def
  by (simp add: Decimal_def)

lemma exponent_value:
  "exponent rate_bps t =
     Inr (dfix (dfix (dfix (of_int rate_bps / 10000) / 31536000) * of_int t))"
  unfolding exponent_def ddiv_10000 ddiv_SECONDS_IN_YEAR and_then_Inr dmul_def
  by (simp add: Decimal_def)

lemma continuous_value:
  "calculate_continuous_compounding_factor exp_via_float rate_bps t =
     exp_via_float (dfix (dfix (dfix (of_int rate_bps / 10000) / 31536000) * of_int t))"
  by (simp only: calculate_continuous_compounding_factor_def exponent_value and_then_Inr)

lemma linear_growth_at_0: "calculate_linear_growth_factor rate_bps 0 = Inr 1"
  by (simp add: linear_growth_value dfix_0 dfix_1)

lemma dfix_RAY: "dfix RAY = RAY"
  unfolding RAY_def by (rule dfix_numeral_pow10)

lemma contract_growth_at_0: "contract_growth_factor rate_bps 0 = Inr RAY"
  by (simp add: growth_factor_returns dadd_def dmul_def Decimal_def dfix_0 dfix_RAY)

lemma cumulative_linear_once_at_0:
  "cumulative_linear rate_bps 0 (Suc 0) (Decimal 1) = Inr 1"
  by (simp add: linear_growth_at_0 and_then_Inr dmul_def Decimal_def dfix_1)

lemma yield_index_update_RAY: "yield_index_update RAY (dfix z) = Inr (dfix z)"
proof -
  have "dfix (RAY * dfix z) = dfix (dfix z * 10 ^ 27)"
    by (simp only: RAY_def mult.commute)
  also have "\<dots> = dfix z * 10 ^ 27"
    by (simp only: dfix_mult_pow10 dfix_idem)
  finally have "dfix (dfix (RAY * dfix z) / 10 ^ 27) = dfix (dfix z)" by simp
  then show ?thesis by (simp only: yield_index_update_returns dfix_idem)
qed

section \<open>Negative rates and rates above the cap\<close>

lemma rate_unit_value:
  "dfix (- (1 / 10000) / 31536000)
      = - (31709791983764586504312531709791983764586504312532 / 10 ^ 61)"
  using dfix_eqI[of "- 12" "- (1 / 10000) / 31536000" "- 31709791983764586504312531709791983764586504312532"]
  by simp

lemma below_one_rounds_below_one:
  "dfix (1 - 31709791983764586504312531709791983764586504312532 / 10 ^ 61) < 1"
  using dfix_eqI[of "- 1" "1 - 31709791983764586504312531709791983764586504312532 / 10 ^ 61" "99999999999682902080162354134956874682902080162354"]
  by simp

lemma rate_per_second_neg:
  assumes "rate_bps < 0"
  shows "dfix (dfix (of_int rate_bps / 10000) / 31536000)
           \<le> - (31709791983764586504312531709791983764586504312532 / 10 ^ 61)"
proof -
  have "rate_bps \<le> - 1" using assms by simp
  then have "(of_int rate_bps :: rat) \<le> of_int (- 1)" by (simp only: of_int_le_iff)
  then have "(of_int rate_bps :: rat) / 10000 \<le> - (1 / 10000)" by (simp add: divide_right_mono)
  then have "dfix (of_int rate_bps / 10000) \<le> dfix (- (1 / 10000))" by (rule dfix_mono)
  also have "dfix (- (1 / 10000)) = - (1 / 10000)"
    using dfix_of_int_powi[of "- 1" "- 4"] by (simp add: prec_def power_int_minus field_simps)
  finally have "dfix (of_int rate_bps / 10000) / 31536000 \<le> - (1 / 10000) / 31536000"
    by (simp add: divide_right_mono)
  then have "dfix (dfix (of_int rate_bps / 10000) / 31536000) \<le> dfix (- (1 / 10000) / 31536000)"
    by (rule dfix_mono)
  then show ?thesis by (simp only: rate_unit_value)
qed

lemma negative_rate_below_one:
  assumes "rate_bps < 0" "0 < t"
  shows "dfix (1 + dfix (dfix (dfix (of_int rate_bps / 10000) / 31536000) * of_int t)) < 1"
proof -
  define c :: rat where "c = 31709791983764586504312531709791983764586504312532 / 10 ^ 61"
  define r where "r = dfix (dfix (of_int rate_bps / 10000) / 31536000)"
  have r: "r \<le> - c" unfolding r_def c_def by (rule rate_per_second_neg[OF assms(1)])
  have c: "0 < c" by (simp add: c_def)
  have "1 \<le> t" using assms(2) by simp
  then have t: "(1::rat) \<le> of_int t" by simp
  have "r * of_int t \<le> r * 1" using r c t by (intro mult_left_mono_neg) simp_all
  then have "r * of_int t \<le> - c" using r by simp
  then have "dfix (r * of_int t) \<le> dfix (- c)" by (rule dfix_mono)
  also have "dfix (- c) = - c"
    unfolding c_def by (subst (1 2) rate_unit_value[symmetric]) (rule dfix_idem)
  finally have "1 + dfix (r * of_int t) \<le> 1 - c" by simp
  then have "dfix (1 + dfix (r * of_int t)) \<le> dfix (1 - c)" by (rule dfix_mono)
  also have "\<dots> < 1" unfolding c_def by (rule below_one_rounds_below_one)
  finally show ?thesis unfolding r_def .
qed

lemma linear_growth_minus_1000_day:
  "calculate_linear_growth_factor (- 1000) 86400
     = Inr (99972602739726027397260273972602739726027397260274 / 10 ^ 50)"
proof -
  have "calculate_linear_growth_factor (- 1000) 86400 =
     Inr (dfix (1 + dfix (dfix (dfix (of_int (- 1000) / 10000) / 31536000) * of_int 86400)))"
    by (rule linear_growth_value)
  also have "dfix (of_int (- 1000) / 10000) = - (1 / 10)"
    using dfix_eqI[of "- 1" "of_int (- 1000) / 10000" "- 10000000000000000000000000000000000000000000000000"]
    by simp
  also have "dfix (- (1 / 10) / 31536000)
      = - (31709791983764586504312531709791983764586504312532 / 10 ^ 58)"
    using dfix_eqI[of "- 9" "- (1 / 10) / 31536000" "- 31709791983764586504312531709791983764586504312532"]
    by simp
  also have "dfix (- (31709791983764586504312531709791983764586504312532 / 10 ^ 58) * of_int 86400)
      = - (27397260273972602739726027397260273972602739726028 / 10 ^ 53)"
    using dfix_eqI[of "- 4" "- (31709791983764586504312531709791983764586504312532 / 10 ^ 58) * of_int 86400" "- 27397260273972602739726027397260273972602739726028"]
    by simp
  also have "dfix (1 + - (27397260273972602739726027397260273972602739726028 / 10 ^ 53))
      = 99972602739726027397260273972602739726027397260274 / 10 ^ 50"
    using dfix_eqI[of "- 1" "1 + - (27397260273972602739726027397260273972602739726028 / 10 ^ 53)" "99972602739726027397260273972602739726027397260274"]
    by simp
  finally show ?thesis .
qed

lemma linear_growth_5001_second:
  "calculate_linear_growth_factor 5001 1
     = Inr (10000000158580669710806697108066971080669710806697 / 10 ^ 49)"
proof -
  have "calculate_linear_growth_factor 5001 1 =
     Inr (dfix (1 + dfix (dfix (dfix (of_int 5001 / 10000) / 31536000) * of_int 1)))"
    by (rule linear_growth_value)
  also have "dfix (of_int 5001 / 10000) = 5001 / 10000"
    using dfix_eqI[of "- 1" "of_int 5001 / 10000" "50010000000000000000000000000000000000000000000000"]
    by simp
  also have "dfix (5001 / 10000 / 31536000)
      = 15858066971080669710806697108066971080669710806697 / 10 ^ 57"
    using dfix_eqI[of "- 8" "5001 / 10000 / 31536000" "15858066971080669710806697108066971080669710806697"]
    by simp
  also have "dfix (15858066971080669710806697108066971080669710806697 / 10 ^ 57 * of_int 1)
      = 15858066971080669710806697108066971080669710806697 / 10 ^ 57"
    using dfix_eqI[of "- 8" "15858066971080669710806697108066971080669710806697 / 10 ^ 57 * of_int 1" "15858066971080669710806697108066971080669710806697"]
    by simp
  also have "dfix (1 + 15858066971080669710806697108066971080669710806697 / 10 ^ 57)
      = 10000000158580669710806697108066971080669710806697 / 10 ^ 49"
    using dfix_eqI[of "0" "1 + 15858066971080669710806697108066971080669710806697 / 10 ^ 57" "10000000158580669710806697108066971080669710806697"]
    by simp
  finally show ?thesis .
qed

lemma linear_growth_5000_second:
  "calculate_linear_growth_factor 5000 1
     = Inr (10000000158548959918822932521562658548959918822933 / 10 ^ 49)"
proof -
  have "calculate_linear_growth_factor 5000 1 =
     Inr (dfix (1 + dfix (dfix (dfix (of_int 5000 / 10000) / 31536000) * of_int 1)))"
    by (rule linear_growth_value)
  also have "dfix (of_int 5000 / 10000) = 1 / 2"
    using dfix_eqI[of "- 1" "of_int 5000 / 10000" "50000000000000000000000000000000000000000000000000"]
    by simp
  also have "dfix (1 / 2 / 31536000)
      = 15854895991882293252156265854895991882293252156266 / 10 ^ 57"
    using dfix_eqI[of "- 8" "1 / 2 / 31536000" "15854895991882293252156265854895991882293252156266"]
    by simp
  also have "dfix (15854895991882293252156265854895991882293252156266 / 10 ^ 57 * of_int 1)
      = 15854895991882293252156265854895991882293252156266 / 10 ^ 57"
    using dfix_eqI[of "- 8" "15854895991882293252156265854895991882293252156266 / 10 ^ 57 * of_int 1" "15854895991882293252156265854895991882293252156266"]
    by simp
  also have "dfix (1 + 15854895991882293252156265854895991882293252156266 / 10 ^ 57)
      = 10000000158548959918822932521562658548959918822933 / 10 ^ 49"
    using dfix_eqI[of "0" "1 + 15854895991882293252156265854895991882293252156266 / 10 ^ 57" "10000000158548959918822932521562658548959918822933"]
    by simp
  finally show ?thesis .
qed

section \<open>Elapsed time zero\<close>

lemma exact_growth_at_0: "exact_growth_factor rate_bps 0 = Inr RAY"
  using contract_growth_at_0[of rate_bps] by (simp only: growth_factor_eq)

lemma continuous_at_0:
  "calculate_continuous_compounding_factor exp_via_float rate_bps 0 = exp_via_float 0"
  by (simp add: continuous_value dfix_0)

lemma difference_bps_at_0: "difference_bps rate_bps 0 (10 ^ 27) = Inr 0"
proof -
  have "ddiv (Decimal (10 ^ 27)) RAY = Inr 1"
    by (simp add: ddiv_RAY Decimal_def dfix_1)
  then show ?thesis
    by (simp add: difference_bps_def and_then_Inr linear_growth_at_0 dsub_def dabs_def dmul_def dfix_0)
qed

section \<open>Monotonicity in the elapsed time\<close>

lemma ulp_le:
  assumes "0 < x"
  shows "ulp x \<le> x / 10 ^ 49"
proof -
  have nz: "x \<noteq> 0" using assms by simp
  have "ulp x = 10 powi adjusted x / 10 powi 49"
    by (simp add: ulp_def prec_def power_int_diff)
  also have "\<dots> \<le> \<bar>x\<bar> / 10 powi 49"
    using adjusted_bounds(1)[OF nz] by (intro divide_right_mono) simp_all
  finally show ?thesis using assms by simp
qed

lemma dfix_rel_err:
  assumes "0 \<le> x"
  shows "\<bar>dfix x - x\<bar> \<le> x / (2 * 10 ^ 49)"
proof (cases "x = 0")
  case True
  then show ?thesis by (simp add: dfix_0)
next
  case False
  with assms have "0 < x" by simp
  from ulp_le[OF this] dfix_err[of x] show ?thesis by simp
qed

lemma dfix_nonneg: "0 \<le> x \<Longrightarrow> 0 \<le> dfix x"
  using dfix_mono[of 0 x] by (simp add: dfix_0)

lemma rate_per_second_pos:
  assumes "0 < rate_bps"
  shows "31709791983764586504312531709791983764586504312532 / 10 ^ 61
           \<le> dfix (dfix (of_int rate_bps / 10000) / 31536000)"
proof -
  have a: "of_int (- rate_bps) / (10000::rat) = - (of_int rate_bps / 10000)" by simp
  have b: "- dfix (of_int rate_bps / 10000) / 31536000
      = - (dfix (of_int rate_bps / 10000) / 31536000)" by simp
  have "- dfix (dfix (of_int rate_bps / 10000) / 31536000)
      = dfix (dfix (of_int (- rate_bps) / 10000) / 31536000)"
    by (simp only: a dfix_neg b)
  also have "\<dots> \<le> - (31709791983764586504312531709791983764586504312532 / 10 ^ 61)"
    using assms by (intro rate_per_second_neg) simp
  finally show ?thesis by simp
qed

lemma linear_strict_core:
  fixes r X Y u1 u2 v1 v2 :: rat
  assumes r: "31709791983764586504312531709791983764586504312532 / 10 ^ 61 \<le> r"
    and X: "0 \<le> X" and XY: "X + r \<le> Y" and Y: "Y \<le> r * 10 ^ 48"
    and u1: "\<bar>u1 - X\<bar> \<le> X / (2 * 10 ^ 49)" and u2: "\<bar>u2 - Y\<bar> \<le> Y / (2 * 10 ^ 49)"
    and v1: "\<bar>v1 - (1 + u1)\<bar> \<le> (1 + u1) / (2 * 10 ^ 49)"
    and v2: "\<bar>v2 - (1 + u2)\<bar> \<le> (1 + u2) / (2 * 10 ^ 49)"
  shows "u1 < u2" and "v1 < v2"
proof -
  show "u1 < u2" using r X XY Y u1 u2 unfolding abs_le_iff by simp
  show "v1 < v2" using r X XY Y u1 u2 v1 v2 unfolding abs_le_iff by simp
qed

text \<open>
  For a positive rate and elapsed times between 0 and \<open>10 ^ 48\<close> seconds, the linear
  growth factor and the exponent of the continuous model increase strictly with the
  elapsed time: the roundings to 50 digits do not merge neighbouring times.
\<close>

lemma linear_growth_strictly_increasing:
  assumes "0 < rate_bps" "rate_bps < 10 ^ 100" "0 \<le> t1" "t1 < t2" "t2 \<le> 10 ^ 48"
  shows "\<exists>e1 e2 l1 l2.
           exponent rate_bps t1 = Inr e1 \<and> exponent rate_bps t2 = Inr e2
         \<and> calculate_linear_growth_factor rate_bps t1 = Inr l1
         \<and> calculate_linear_growth_factor rate_bps t2 = Inr l2
         \<and> e1 < e2 \<and> l1 < l2"
proof -
  define r where "r = dfix (dfix (of_int rate_bps / 10000) / 31536000)"
  define X :: rat where "X = r * of_int t1"
  define Y :: rat where "Y = r * of_int t2"
  have r: "31709791983764586504312531709791983764586504312532 / 10 ^ 61 \<le> r"
    unfolding r_def by (rule rate_per_second_pos[OF assms(1)])
  then have rpos: "0 < r" by simp
  have "t1 + 1 \<le> t2" using assms(4) by simp
  then have "(of_int (t1 + 1) :: rat) \<le> of_int t2" by (simp only: of_int_le_iff)
  then have "r * of_int (t1 + 1) \<le> r * of_int t2"
    using rpos by (intro mult_left_mono) simp_all
  then have XY: "X + r \<le> Y" by (simp add: X_def Y_def algebra_simps)
  then have le: "X \<le> Y" using rpos by simp
  have "(0::rat) \<le> of_int t1" using assms(3) by simp
  then have X0: "0 \<le> X" using rpos by (simp add: X_def)
  then have Y0: "0 \<le> Y" using le by simp
  have "(of_int t2 :: rat) \<le> of_int (10 ^ 48)" using assms(5) by (simp only: of_int_le_iff)
  then have "r * of_int t2 \<le> r * of_int (10 ^ 48)"
    using rpos by (intro mult_left_mono) simp_all
  then have Yb: "Y \<le> r * 10 ^ 48" by (simp add: Y_def)
  have u1: "\<bar>dfix X - X\<bar> \<le> X / (2 * 10 ^ 49)" by (rule dfix_rel_err[OF X0])
  have u2: "\<bar>dfix Y - Y\<bar> \<le> Y / (2 * 10 ^ 49)" by (rule dfix_rel_err[OF Y0])
  have "0 \<le> 1 + dfix X" using dfix_nonneg[OF X0] by simp
  then have v1: "\<bar>dfix (1 + dfix X) - (1 + dfix X)\<bar> \<le> (1 + dfix X) / (2 * 10 ^ 49)"
    by (rule dfix_rel_err)
  have "0 \<le> 1 + dfix Y" using dfix_nonneg[OF Y0] by simp
  then have v2: "\<bar>dfix (1 + dfix Y) - (1 + dfix Y)\<bar> \<le> (1 + dfix Y) / (2 * 10 ^ 49)"
    by (rule dfix_rel_err)
  note strict = linear_strict_core[OF r X0 XY Yb u1 u2 v1 v2]
  have "exponent rate_bps t1 = Inr (dfix X)" "exponent rate_bps t2 = Inr (dfix Y)"
    by (simp_all only: exponent_value X_def Y_def r_def)
  moreover have "calculate_linear_growth_factor rate_bps t1 = Inr (dfix (1 + dfix X))"
    "calculate_linear_growth_factor rate_bps t2 = Inr (dfix (1 + dfix Y))"
    by (simp_all only: linear_growth_value X_def Y_def r_def)
  ultimately show ?thesis using strict by blast
qed

section \<open>Roundings at particular inputs\<close>

lemma dfix_growth_1000_second:
  "dfix (10 ^ 27 + 31709791983764586504312531709791983764586504312532 / 10 ^ 31)
     = 10000000031709791983764586504312531709791983764587 / 10 ^ 22"
  using dfix_eqI[of "27" "10 ^ 27 + 31709791983764586504312531709791983764586504312532 / 10 ^ 31" "10000000031709791983764586504312531709791983764587"]
  by simp

lemma contract_growth_1000_second:
  "contract_growth_factor 1000 1 = Inr (10000000031709791983764586504312531709791983764587 / 10 ^ 22)"
proof -
  have "dfix (31709791983764586504312531709791983764586504312532 / 10 ^ 31 * of_int 1)
      = 31709791983764586504312531709791983764586504312532 / 10 ^ 31"
    using dfix_eqI[of "18" "31709791983764586504312531709791983764586504312532 / 10 ^ 31 * of_int 1" "31709791983764586504312531709791983764586504312532"]
    by simp
  then show ?thesis
    by (simp only: growth_factor_returns rate_core_1000 dadd_def dmul_def Decimal_def RAY_def
        dfix_growth_1000_second)
qed

lemma first_update_every_second:
  "cumulative_updates 1000 1 (Suc 0) (RAY, RAY)
     = Inr (10000000031709791983764586504312531709791983764587 / 10 ^ 22,
            10000000031709791983764586504312531709791983764587 / 10 ^ 22)"
proof -
  have "yield_index_update RAY (dfix (10 ^ 27 + 31709791983764586504312531709791983764586504312532 / 10 ^ 31)) = Inr (dfix (10 ^ 27 + 31709791983764586504312531709791983764586504312532 / 10 ^ 31))"
    by (rule yield_index_update_RAY)
  then have up: "yield_index_update RAY (10000000031709791983764586504312531709791983764587 / 10 ^ 22) = Inr (10000000031709791983764586504312531709791983764587 / 10 ^ 22)"
    by (simp only: dfix_growth_1000_second)
  have eg: "exact_growth_factor 1000 1 = Inr (10000000031709791983764586504312531709791983764587 / 10 ^ 22)"
    using contract_growth_1000_second by (simp only: growth_factor_eq)
  show ?thesis
    by (simp only: cumulative_updates.simps contract_growth_1000_second eg up and_then_Inr
        fst_conv snd_conv)
qed

section \<open>The exponential of the library\<close>

lemma exp_taylor_lower:
  fixes x :: real
  assumes "0 \<le> x"
  shows "(\<Sum>m<8. x ^ m / fact m) \<le> exp x"
proof -
  obtain t where "exp x = (\<Sum>m<8. x ^ m / fact m) + exp t / fact 8 * x ^ 8"
    using Maclaurin_exp_le[of x 8] by blast
  moreover have "0 \<le> exp t / fact 8 * x ^ 8" using assms by simp
  ultimately show ?thesis by linarith
qed

lemma exp_taylor_upper:
  fixes x :: real
  assumes "0 \<le> x" "x \<le> 1"
  shows "exp x \<le> (\<Sum>m<8. x ^ m / fact m) + 3 / fact 8 * x ^ 8"
proof -
  obtain t where t: "\<bar>t\<bar> \<le> \<bar>x\<bar>"
    and e: "exp x = (\<Sum>m<8. x ^ m / fact m) + exp t / fact 8 * x ^ 8"
    using Maclaurin_exp_le[of x 8] by blast
  have "t \<le> 1" using t assms by linarith
  then have "exp t \<le> exp 1" by simp
  then have "exp t \<le> 3" using exp_le by linarith
  then have "exp t / fact 8 * x ^ 8 \<le> 3 / fact 8 * x ^ 8"
    using assms by (intro mult_right_mono divide_right_mono) simp_all
  with e show ?thesis by linarith
qed

lemma taylor8_unfold:
  fixes x :: real
  shows "(\<Sum>m<8. x ^ m / fact m)
    = 1 + x + x ^ 2 / 2 + x ^ 3 / 6 + x ^ 4 / 24 + x ^ 5 / 120 + x ^ 6 / 720 + x ^ 7 / 5040"
  by (simp add: eval_nat_numeral)

lemma exp_month_lower:
  "(100825304825777374 / 10 ^ 17 :: real) < exp (82191780821917808219 / 10 ^ 22)"
proof -
  have "(100825304825777374 / 10 ^ 17 :: real) < (\<Sum>m<8. (82191780821917808219 / 10 ^ 22) ^ m / fact m)"
    unfolding taylor8_unfold by (simp add: power_divide)
  also have "\<dots> \<le> exp (82191780821917808219 / 10 ^ 22)"
    by (rule exp_taylor_lower) simp
  finally show ?thesis .
qed

lemma exp_month_upper:
  "exp (82191780821917808220 / 10 ^ 22) < (100825304825777376 / 10 ^ 17 :: real)"
proof -
  have "exp (82191780821917808220 / 10 ^ 22 :: real)
      \<le> (\<Sum>m<8. (82191780821917808220 / 10 ^ 22) ^ m / fact m)
          + 3 / fact 8 * (82191780821917808220 / 10 ^ 22) ^ 8"
    by (rule exp_taylor_upper) simp_all
  also have "\<dots> < 100825304825777376 / 10 ^ 17"
    unfolding taylor8_unfold by (simp add: fact_numeral power_divide)
  finally show ?thesis .
qed

lemma seventeen_digit_gap:
  assumes "binary64_repr v"
  shows "v \<le> 10082530482577737 / 10 ^ 16 \<or> 10082530482577738 / 10 ^ 16 \<le> v"
proof (rule ccontr)
  assume "\<not> ?thesis"
  then have lo: "10082530482577737 / 10 ^ 16 < v" and hi: "v < 10082530482577738 / 10 ^ 16"
    by simp_all
  obtain m e where m: "\<bar>m\<bar> < 10 ^ 17" and v: "v = of_int m * 10 powi e"
    using assms unfolding binary64_repr_def by blast
  consider "- 16 \<le> e" | "e \<le> - 17" by linarith
  then show False
  proof cases
    case 1
    then obtain j :: nat where j: "e + 16 = int j"
      by (metis add.commute diff_ge_0_iff_ge diff_minus_eq_add nonneg_int_cases)
    have "v * 10 ^ 16 = of_int m * (10 powi e * 10 powi 16)" by (simp add: v)
    also have "10 powi e * 10 powi 16 = (10::rat) powi (e + 16)" by (simp add: power_int_add)
    also have "of_int m * 10 powi (e + 16) = (of_int (m * 10 ^ j) :: rat)" unfolding j by simp
    finally have eq: "v * 10 ^ 16 = of_int (m * 10 ^ j)" .
    have "(of_int 10082530482577737 :: rat) < v * 10 ^ 16" using lo by (simp add: field_simps)
    then have a: "10082530482577737 < m * 10 ^ j" unfolding eq by (simp only: of_int_less_iff)
    have "v * 10 ^ 16 < (of_int 10082530482577738 :: rat)" using hi by (simp add: field_simps)
    then have b: "m * 10 ^ j < 10082530482577738" unfolding eq by (simp only: of_int_less_iff)
    from a b show False by linarith
  next
    case 2
    have p: "(10::rat) powi e \<le> 10 powi (- 17)"
      using 2 by (intro power_int_increasing) simp_all
    have "(of_int m :: rat) \<le> of_int \<bar>m\<bar>" by simp
    also have "\<dots> < of_int (10 ^ 17)" using m by (simp only: of_int_less_iff)
    finally have mb: "(of_int m :: rat) < 10 ^ 17" by simp
    have vpos: "0 < v" using lo by (simp add: order_less_trans[rotated])
    moreover have "(0::rat) < 10 powi e" by simp
    ultimately have mpos: "(0::rat) < of_int m"
      unfolding v by (simp only: zero_less_mult_pos2)
    have "v \<le> of_int m * 10 powi (- 17)"
      unfolding v using p mpos by (intro mult_left_mono) simp_all
    also have "\<dots> < 10 ^ 17 * 10 powi (- 17)"
      using mb by (intro mult_strict_right_mono) simp_all
    also have "\<dots> = (1::rat)" by (simp add: power_int_minus)
    finally show False using lo by simp
  qed
qed

lemma exponent_1000_month:
  "exponent 1000 2592000
     = Inr (82191780821917808219178082191780821917808219178083 / 10 ^ 52)"
proof -
  have "exponent 1000 2592000 =
     Inr (dfix (dfix (dfix (of_int 1000 / 10000) / 31536000) * of_int 2592000))"
    by (rule exponent_value)
  also have "dfix (of_int 1000 / 10000) = 1 / 10 ^ 1"
    using dfix_eqI[of "- 1" "of_int 1000 / 10000" "10000000000000000000000000000000000000000000000000"]
    by simp
  also have "dfix (1 / 10 ^ 1 / 31536000)
      = 31709791983764586504312531709791983764586504312532 / 10 ^ 58"
    using dfix_eqI[of "- 9" "1 / 10 ^ 1 / 31536000" "31709791983764586504312531709791983764586504312532"]
    by simp
  also have "dfix (31709791983764586504312531709791983764586504312532 / 10 ^ 58 * of_int 2592000)
      = 82191780821917808219178082191780821917808219178083 / 10 ^ 52"
    using dfix_eqI[of "- 3" "31709791983764586504312531709791983764586504312532 / 10 ^ 58 * of_int 2592000" "82191780821917808219178082191780821917808219178083"]
    by simp
  finally show ?thesis .
qed

lemma exponent_1000_2s:
  "exponent 1000 2
     = Inr (63419583967529173008625063419583967529173008625064 / 10 ^ 58)"
proof -
  have "exponent 1000 2 =
     Inr (dfix (dfix (dfix (of_int 1000 / 10000) / 31536000) * of_int 2))"
    by (rule exponent_value)
  also have "dfix (of_int 1000 / 10000) = 1 / 10 ^ 1"
    using dfix_eqI[of "- 1" "of_int 1000 / 10000" "10000000000000000000000000000000000000000000000000"]
    by simp
  also have "dfix (1 / 10 ^ 1 / 31536000)
      = 31709791983764586504312531709791983764586504312532 / 10 ^ 58"
    using dfix_eqI[of "- 9" "1 / 10 ^ 1 / 31536000" "31709791983764586504312531709791983764586504312532"]
    by simp
  also have "dfix (31709791983764586504312531709791983764586504312532 / 10 ^ 58 * of_int 2)
      = 63419583967529173008625063419583967529173008625064 / 10 ^ 58"
    using dfix_eqI[of "- 9" "31709791983764586504312531709791983764586504312532 / 10 ^ 58 * of_int 2" "63419583967529173008625063419583967529173008625064"]
    by simp
  finally show ?thesis .
qed

lemma exponent_1000_3s:
  "exponent 1000 3
     = Inr (95129375951293759512937595129375951293759512937596 / 10 ^ 58)"
proof -
  have "exponent 1000 3 =
     Inr (dfix (dfix (dfix (of_int 1000 / 10000) / 31536000) * of_int 3))"
    by (rule exponent_value)
  also have "dfix (of_int 1000 / 10000) = 1 / 10 ^ 1"
    using dfix_eqI[of "- 1" "of_int 1000 / 10000" "10000000000000000000000000000000000000000000000000"]
    by simp
  also have "dfix (1 / 10 ^ 1 / 31536000)
      = 31709791983764586504312531709791983764586504312532 / 10 ^ 58"
    using dfix_eqI[of "- 9" "1 / 10 ^ 1 / 31536000" "31709791983764586504312531709791983764586504312532"]
    by simp
  also have "dfix (31709791983764586504312531709791983764586504312532 / 10 ^ 58 * of_int 3)
      = 95129375951293759512937595129375951293759512937596 / 10 ^ 58"
    using dfix_eqI[of "- 9" "31709791983764586504312531709791983764586504312532 / 10 ^ 58 * of_int 3" "95129375951293759512937595129375951293759512937596"]
    by simp
  finally show ?thesis .
qed

lemma linear_growth_1000_2s:
  "calculate_linear_growth_factor 1000 2
     = Inr (10000000063419583967529173008625063419583967529173 / 10 ^ 49)"
proof -
  have "calculate_linear_growth_factor 1000 2 =
     Inr (dfix (1 + dfix (dfix (dfix (of_int 1000 / 10000) / 31536000) * of_int 2)))"
    by (rule linear_growth_value)
  also have "dfix (of_int 1000 / 10000) = 1 / 10 ^ 1"
    using dfix_eqI[of "- 1" "of_int 1000 / 10000" "10000000000000000000000000000000000000000000000000"]
    by simp
  also have "dfix (1 / 10 ^ 1 / 31536000)
      = 31709791983764586504312531709791983764586504312532 / 10 ^ 58"
    using dfix_eqI[of "- 9" "1 / 10 ^ 1 / 31536000" "31709791983764586504312531709791983764586504312532"]
    by simp
  also have "dfix (31709791983764586504312531709791983764586504312532 / 10 ^ 58 * of_int 2)
      = 63419583967529173008625063419583967529173008625064 / 10 ^ 58"
    using dfix_eqI[of "- 9" "31709791983764586504312531709791983764586504312532 / 10 ^ 58 * of_int 2" "63419583967529173008625063419583967529173008625064"]
    by simp
  also have "dfix (1 + 63419583967529173008625063419583967529173008625064 / 10 ^ 58)
      = 10000000063419583967529173008625063419583967529173 / 10 ^ 49"
    using dfix_eqI[of "0" "1 + 63419583967529173008625063419583967529173008625064 / 10 ^ 58" "10000000063419583967529173008625063419583967529173"]
    by simp
  finally show ?thesis .
qed

lemma linear_growth_1000_3s:
  "calculate_linear_growth_factor 1000 3
     = Inr (1000000009512937595129375951293759512937595129376 / 10 ^ 48)"
proof -
  have "calculate_linear_growth_factor 1000 3 =
     Inr (dfix (1 + dfix (dfix (dfix (of_int 1000 / 10000) / 31536000) * of_int 3)))"
    by (rule linear_growth_value)
  also have "dfix (of_int 1000 / 10000) = 1 / 10 ^ 1"
    using dfix_eqI[of "- 1" "of_int 1000 / 10000" "10000000000000000000000000000000000000000000000000"]
    by simp
  also have "dfix (1 / 10 ^ 1 / 31536000)
      = 31709791983764586504312531709791983764586504312532 / 10 ^ 58"
    using dfix_eqI[of "- 9" "1 / 10 ^ 1 / 31536000" "31709791983764586504312531709791983764586504312532"]
    by simp
  also have "dfix (31709791983764586504312531709791983764586504312532 / 10 ^ 58 * of_int 3)
      = 95129375951293759512937595129375951293759512937596 / 10 ^ 58"
    using dfix_eqI[of "- 9" "31709791983764586504312531709791983764586504312532 / 10 ^ 58 * of_int 3" "95129375951293759512937595129375951293759512937596"]
    by simp
  also have "dfix (1 + 95129375951293759512937595129375951293759512937596 / 10 ^ 58)
      = 1000000009512937595129375951293759512937595129376 / 10 ^ 48"
    using dfix_eqI[of "0" "1 + 95129375951293759512937595129375951293759512937596 / 10 ^ 58" "10000000095129375951293759512937595129375951293760"]
    by simp
  finally show ?thesis .
qed

lemma exp_month_bounds:
  "100825304825777374 / 10 ^ 17 < exp (real_of_rat (82191780821917808219178082191780821917808219178083 / 10 ^ 52))"
  "exp (real_of_rat (82191780821917808219178082191780821917808219178083 / 10 ^ 52)) < 100825304825777376 / 10 ^ 17"
proof -
  have "(82191780821917808219 / 10 ^ 22 :: real) \<le> real_of_rat (82191780821917808219178082191780821917808219178083 / 10 ^ 52)"
    by (simp add: of_rat_divide of_rat_power)
  then have "exp (82191780821917808219 / 10 ^ 22 :: real) \<le> exp (real_of_rat (82191780821917808219178082191780821917808219178083 / 10 ^ 52))"
    by (simp only: exp_le_cancel_iff)
  with exp_month_lower show "100825304825777374 / 10 ^ 17 < exp (real_of_rat (82191780821917808219178082191780821917808219178083 / 10 ^ 52))"
    by linarith
  have "real_of_rat (82191780821917808219178082191780821917808219178083 / 10 ^ 52) \<le> (82191780821917808220 / 10 ^ 22 :: real)"
    by (simp add: of_rat_divide of_rat_power)
  then have "exp (real_of_rat (82191780821917808219178082191780821917808219178083 / 10 ^ 52)) \<le> exp (82191780821917808220 / 10 ^ 22 :: real)"
    by (simp only: exp_le_cancel_iff)
  with exp_month_upper show "exp (real_of_rat (82191780821917808219178082191780821917808219178083 / 10 ^ 52)) < 100825304825777376 / 10 ^ 17"
    by linarith
qed

lemma continuous_1000_month:
  "calculate_continuous_compounding_factor exp_via_float 1000 2592000
     = exp_via_float (82191780821917808219178082191780821917808219178083 / 10 ^ 52)"
  by (simp only: calculate_continuous_compounding_factor_def exponent_1000_month and_then_Inr)

lemma loss_1000_2s:
  "calculate_precision_loss (10000000063419583967529173008625063419583967529173 / 10 ^ 49) (10000000063419585 / 10 ^ 16)
     = Inr (1032470826991374936580416032470827 / 10 ^ 45)"
proof -
  have d: "dfix (10000000063419585 / 10 ^ 16 - 10000000063419583967529173008625063419583967529173 / 10 ^ 49)
      = 1032470826991374936580416032470827 / 10 ^ 49"
    using dfix_eqI[of "- 16" "10000000063419585 / 10 ^ 16 - 10000000063419583967529173008625063419583967529173 / 10 ^ 49" "10324708269913749365804160324708270000000000000000"]
    by simp
  have n: "\<not> (10000000063419585 / 10 ^ 16 :: rat) \<le> 10000000063419583967529173008625063419583967529173 / 10 ^ 49"
    by simp
  have "calculate_precision_loss (10000000063419583967529173008625063419583967529173 / 10 ^ 49) (10000000063419585 / 10 ^ 16)
     = Inr (1032470826991374936580416032470827 / 10 ^ 49 * 10000)"
    by (simp only: calculate_precision_loss_value n if_False d)
  then show ?thesis by simp
qed

lemma loss_1000_3s:
  "calculate_precision_loss (1000000009512937595129375951293759512937595129376 / 10 ^ 48) (10000000095129375 / 10 ^ 16) = Inr 0"
proof -
  have n: "(10000000095129375 / 10 ^ 16 :: rat) \<le> 1000000009512937595129375951293759512937595129376 / 10 ^ 48"
    by simp
  show ?thesis by (simp only: calculate_precision_loss_value n if_True)
qed

section \<open>The claims\<close>

text \<open>
  Claim C1. The specification has the fixed-point model compute
  \<open>floor(floor(rateBasisPoints * RAY / 10000) / secondsPerYear)\<close>, a non-negative
  integer. The script's contract path divides Decimals without truncating: at 1000 basis
  points it returns 3170979198376458650.4312531709791983764586504312532, where the
  formula of the specification gives 3170979198376458650.
\<close>

theorem contract_rate_per_second_not_floored:
  "contract_rate_per_second 1000
     = Inr (31709791983764586504312531709791983764586504312532 / 10 ^ 31)
   \<and> spec_rate_per_second 1000 = 3170979198376458650
   \<and> contract_rate_per_second 1000 \<noteq> Inr (of_int (spec_rate_per_second 1000))"
proof -
  have 1: "contract_rate_per_second 1000
     = Inr (31709791983764586504312531709791983764586504312532 / 10 ^ 31)"
    by (simp only: contract_rate_value rate_core_1000)
  have 2: "spec_rate_per_second 1000 = 3170979198376458650"
    by (simp add: spec_rate_per_second_def)
  show ?thesis unfolding 1 2 by simp
qed

text \<open>
  Claim C2. For every rate in basis points the contract derivation
  \<open>Decimal(rate_bps) * RAY / 10000 / SECONDS_IN_YEAR\<close> and the exact derivation
  \<open>(Decimal(rate_bps) / 10000) / SECONDS_IN_YEAR * RAY\<close> return equal Decimals, because
  rounding to 50 significant digits commutes with scaling by a power of ten
  (\<open>dfix_scale\<close>) and is idempotent (\<open>dfix_idem\<close>). Hence, for every rate, interval
  and number of steps, the growth factors and the running yield indices of the two paths
  are equal after every step, and every contract-against-exact precision loss the script
  computes is exactly zero.
\<close>

theorem contract_path_equals_exact_path:
  "contract_rate_per_second rate_bps = exact_rate_per_second rate_bps
   \<and> rate_precision_loss rate_bps = Inr 0
   \<and> contract_growth_factor rate_bps time_seconds = exact_growth_factor rate_bps time_seconds
   \<and> growth_precision_loss rate_bps time_seconds = Inr 0
   \<and> (\<exists>v. cumulative_updates rate_bps update_interval n (RAY, RAY) = Inr (v, v))
   \<and> map_sum id contract_yield_index (cumulative_scenario rate_bps total_time update_interval)
       = map_sum id exact_yield_index (cumulative_scenario rate_bps total_time update_interval)
   \<and> map_sum id cumulative_precision_loss (cumulative_scenario rate_bps total_time update_interval)
       = (if update_interval = 0 then Inl ZeroDivisionError else Inr 0)
   \<and> contract_final_index rate_bps time_seconds = exact_final_index rate_bps time_seconds
   \<and> extreme_precision_loss rate_bps time_seconds = Inr 0"
proof (intro conjI)
  show "contract_rate_per_second rate_bps = exact_rate_per_second rate_bps"
    by (simp only: contract_rate_value exact_rate_value)
  show "rate_precision_loss rate_bps = Inr 0"
    by (simp only: rate_precision_loss_def contract_rate_value exact_rate_value and_then_Inr loss_bps_same)
  show "contract_growth_factor rate_bps time_seconds = exact_growth_factor rate_bps time_seconds"
    by (rule growth_factor_eq)
  show "growth_precision_loss rate_bps time_seconds = Inr 0"
    by (simp only: growth_precision_loss_def growth_factor_eq[symmetric] growth_factor_returns
        and_then_Inr loss_bps_same)
  show "\<exists>v. cumulative_updates rate_bps update_interval n (RAY, RAY) = Inr (v, v)"
    by (rule cumulative_updates_same)
  obtain v where v: "cumulative_scenario rate_bps total_time update_interval =
     (if update_interval = 0 then Inl ZeroDivisionError
      else Inr \<lparr>updates_count = total_time div update_interval, contract_yield_index = v,
                exact_yield_index = v, cumulative_precision_loss = 0\<rparr>)"
    using cumulative_scenario_value by blast
  show "map_sum id contract_yield_index (cumulative_scenario rate_bps total_time update_interval)
       = map_sum id exact_yield_index (cumulative_scenario rate_bps total_time update_interval)"
    unfolding v by simp
  show "map_sum id cumulative_precision_loss (cumulative_scenario rate_bps total_time update_interval)
       = (if update_interval = 0 then Inl ZeroDivisionError else Inr 0)"
    unfolding v by simp
  show "contract_final_index rate_bps time_seconds = exact_final_index rate_bps time_seconds"
    by (rule final_index_eq)
  obtain w where w: "contract_final_index rate_bps time_seconds = Inr w"
    using final_index_returns by blast
  show "extreme_precision_loss rate_bps time_seconds = Inr 0"
    by (simp only: extreme_precision_loss_def final_index_eq[symmetric] w and_then_Inr loss_bps_same)
qed

text \<open>
  Claim C3. The specification has the next index be
  \<open>floor(currentIndex * growthFactor / RAY)\<close>, an integer. The script's index update
  \<open>yield_index * growth_factor / RAY\<close> does not truncate. The first update of the
  every-second scenario (1000 basis points, index \<open>RAY\<close>) gives the index
  1000000003170979198376458650.4312531709791983764587, where the formulas of the
  specification give 1000000003170979198376458650; and for the integer index and growth
  factor 1000000003170979198376458650 the update returns
  1000000006341958406808026376.5362083002560465151598, where the formula of the
  specification gives 1000000006341958406808026376.
\<close>

theorem yield_index_update_not_floored:
  "cumulative_updates 1000 1 (Suc 0) (RAY, RAY)
     = Inr (10000000031709791983764586504312531709791983764587 / 10 ^ 22,
            10000000031709791983764586504312531709791983764587 / 10 ^ 22)
   \<and> spec_next_index (10 ^ 27) (10 ^ 27 + spec_rate_per_second 1000 * 1)
     = 1000000003170979198376458650
   \<and> yield_index_update 1000000003170979198376458650 1000000003170979198376458650
     = Inr (10000000063419584068080263765362083002560465151598 / 10 ^ 22)
   \<and> spec_next_index 1000000003170979198376458650 1000000003170979198376458650
     = 1000000006341958406808026376
   \<and> yield_index_update 1000000003170979198376458650 1000000003170979198376458650
     \<noteq> Inr (of_int (spec_next_index 1000000003170979198376458650 1000000003170979198376458650))"
proof -
  have "dfix (dfix (1000000003170979198376458650 * 1000000003170979198376458650) / 10 ^ 27)
      = dfix (1000000003170979198376458650 * 1000000003170979198376458650) / 10 ^ 27"
    by (simp only: dfix_div_pow10 dfix_idem)
  also have "\<dots> = 10000000063419584068080263765362083002560465151598 / 10 ^ 22"
    unfolding dfix_index_square by simp
  finally have 1: "yield_index_update 1000000003170979198376458650 1000000003170979198376458650
     = Inr (10000000063419584068080263765362083002560465151598 / 10 ^ 22)"
    by (simp only: yield_index_update_returns)
  have 2: "spec_next_index 1000000003170979198376458650 1000000003170979198376458650
     = 1000000006341958406808026376"
    by (simp add: spec_next_index_def)
  have 3: "spec_next_index (10 ^ 27) (10 ^ 27 + spec_rate_per_second 1000 * 1)
     = 1000000003170979198376458650"
    by (simp add: spec_next_index_def spec_rate_per_second_def)
  show ?thesis unfolding 1 2 3 first_update_every_second by simp
qed

text \<open>
  Claim C4, as stated, fails: \<open>calculate_precision_loss\<close> is one-sided. With a linear
  factor 2 and a continuous factor 1 it returns 0 although the inputs differ, and
  swapping the arguments gives 10000.
\<close>

theorem calculate_precision_loss_counterexample:
  "calculate_precision_loss 2 1 = Inr 0 \<and> calculate_precision_loss 1 2 = Inr 10000"
proof -
  have "dfix (2 - 1) = 1" using dfix_1 by simp
  then show ?thesis by (simp add: calculate_precision_loss_value)
qed

text \<open>
  Claim C4, amended. For every linear factor \<open>a\<close> and continuous factor \<open>b\<close>,
  \<open>calculate_precision_loss\<close> returns \<open>(b - a) * 10000\<close> with the difference rounded to
  50 significant digits when \<open>b > a\<close>, and exactly zero when \<open>b \<le> a\<close>; the result is
  strictly positive exactly when \<open>a < b\<close>, and it is zero when the two inputs are equal.
\<close>

theorem calculate_precision_loss_one_sided:
  "calculate_precision_loss a b = Inr (if b \<le> a then 0 else dfix (b - a) * 10000)
   \<and> (0 < (if b \<le> a then 0 else dfix (b - a) * 10000)) = (a < b)
   \<and> calculate_precision_loss a a = Inr 0"
proof (intro conjI)
  show "calculate_precision_loss a b = Inr (if b \<le> a then 0 else dfix (b - a) * 10000)"
    by (rule calculate_precision_loss_value)
  show "(0 < (if b \<le> a then 0 else dfix (b - a) * 10000)) = (a < b)"
    using dfix_pos[of "b - a"] by auto
  show "calculate_precision_loss a a = Inr 0"
    by (simp add: calculate_precision_loss_value)
qed

text \<open>
  Claim C5. The specification has the continuous reference evaluate the exponential with
  at least 50 significant digits and not in double precision. The script evaluates
  \<open>Decimal(str(math.exp(float(exponent))))\<close>: whatever the library's exponential returns,
  the string of a binary64 float has at most 17 significant digits, so for 1000 basis
  points over 30 days the continuous factor differs from the exponential of the exponent
  by more than \<open>4 / 10 ^ 17\<close>: it cannot carry 50 significant digits of it. The
  witness takes the value 1.0082530482577738 that binary64 arithmetic gives here, where
  the exponential is 1.00825304825777374332...
\<close>

theorem continuous_factor_is_double_precision:
  assumes "\<And>x v. exp_via_float x = Inr v \<Longrightarrow> binary64_repr v"
  shows "exponent 1000 2592000 = Inr (82191780821917808219178082191780821917808219178083 / 10 ^ 52)
    \<and> (\<forall>v. calculate_continuous_compounding_factor exp_via_float 1000 2592000 = Inr v \<longrightarrow>
          4 / 10 ^ 17 < \<bar>real_of_rat v - exp (real_of_rat (82191780821917808219178082191780821917808219178083 / 10 ^ 52))\<bar>)"
proof (intro conjI allI impI)
  show "exponent 1000 2592000 = Inr (82191780821917808219178082191780821917808219178083 / 10 ^ 52)"
    by (rule exponent_1000_month)
  fix v
  assume "calculate_continuous_compounding_factor exp_via_float 1000 2592000 = Inr v"
  then have "exp_via_float (82191780821917808219178082191780821917808219178083 / 10 ^ 52) = Inr v"
    by (simp only: continuous_1000_month)
  then have "binary64_repr v" by (rule assms)
  then consider "v \<le> 10082530482577737 / 10 ^ 16" | "10082530482577738 / 10 ^ 16 \<le> v"
    using seventeen_digit_gap by blast
  then show "4 / 10 ^ 17 < \<bar>real_of_rat v - exp (real_of_rat (82191780821917808219178082191780821917808219178083 / 10 ^ 52))\<bar>"
  proof cases
    case 1
    then have "real_of_rat v \<le> real_of_rat (10082530482577737 / 10 ^ 16)"
      by (simp only: of_rat_less_eq)
    then have "real_of_rat v \<le> 10082530482577737 / 10 ^ 16"
      by (simp add: of_rat_divide of_rat_power)
    then have "real_of_rat v + 4 / 10 ^ 17 \<le> 100825304825777374 / 10 ^ 17"
      by simp
    also note exp_month_bounds(1)
    finally show ?thesis by (simp only: abs_if) (simp split: if_splits)
  next
    case 2
    then have "real_of_rat (10082530482577738 / 10 ^ 16) \<le> real_of_rat v"
      by (simp only: of_rat_less_eq)
    then have "10082530482577738 / 10 ^ 16 \<le> real_of_rat v"
      by (simp add: of_rat_divide of_rat_power)
    then have "100825304825777376 / 10 ^ 17 \<le> real_of_rat v - 4 / 10 ^ 17"
      by simp
    with exp_month_bounds(2)
    have "exp (real_of_rat (82191780821917808219178082191780821917808219178083 / 10 ^ 52)) < real_of_rat v - 4 / 10 ^ 17"
      by (rule less_le_trans)
    then show ?thesis by (simp only: abs_if) (simp split: if_splits)
  qed
qed

theorem continuous_factor_is_double_precision_witness:
  "calculate_continuous_compounding_factor (\<lambda>x. Inr (10082530482577738 / 10 ^ 16)) 1000 2592000
     = Inr (10082530482577738 / 10 ^ 16)
   \<and> 4 / 10 ^ 17 < \<bar>real_of_rat (10082530482577738 / 10 ^ 16)
          - exp (real_of_rat (82191780821917808219178082191780821917808219178083 / 10 ^ 52))\<bar>"
proof -
  have "(10082530482577738 / 10 ^ 16 :: rat) = of_int 10082530482577738 * 10 powi (- 16)"
    by simp
  moreover have "\<bar>10082530482577738 :: int\<bar> < 10 ^ 17"
    by simp
  ultimately have r: "binary64_repr (10082530482577738 / 10 ^ 16)"
    unfolding binary64_repr_def by blast
  have c: "calculate_continuous_compounding_factor (\<lambda>x. Inr (10082530482577738 / 10 ^ 16)) 1000 2592000
     = Inr (10082530482577738 / 10 ^ 16)"
    by (simp only: continuous_1000_month)
  have g: "4 / 10 ^ 17 < \<bar>real_of_rat (10082530482577738 / 10 ^ 16)
          - exp (real_of_rat (82191780821917808219178082191780821917808219178083 / 10 ^ 52))\<bar>"
  proof (rule continuous_factor_is_double_precision[of "\<lambda>x. Inr (10082530482577738 / 10 ^ 16)",
        THEN conjunct2, THEN spec, THEN mp])
    show "calculate_continuous_compounding_factor (\<lambda>x. Inr (10082530482577738 / 10 ^ 16)) 1000 2592000
       = Inr (10082530482577738 / 10 ^ 16)"
      by (rule c)
  next
    fix x v :: rat
    assume "Inr (10082530482577738 / 10 ^ 16) = (Inr v :: error + rat)"
    then have "v = 10082530482577738 / 10 ^ 16" by (simp only: sum.inject)
    then show "binary64_repr v" by (simp only: r)
  qed
  show ?thesis using c g by (rule conjI)
qed

text \<open>
  Claim C6, as stated, fails on the update-frequency scenario: for a zero interval the
  guard \<open>total_time // interval if interval > 0 else 1\<close> substitutes one update, and the
  loop runs and returns the cumulative linear factor 1.
\<close>

theorem zero_interval_counterexample:
  "frequency_updates_count 86400 0 = 1
   \<and> cumulative_linear 1000 0 (nat (frequency_updates_count 86400 0)) (Decimal 1) = Inr 1"
  using cumulative_linear_once_at_0[of 1000] by (simp add: frequency_updates_count_def)

text \<open>
  Claim C6, amended. In the cumulative yield-index scenario a zero update interval raises
  \<open>ZeroDivisionError\<close> at the division that computes the number of updates, before any
  Decimal arithmetic and with no result. In the update-frequency scenario a zero interval
  is not rejected: the number of updates is replaced by 1, the cumulative linear factor
  is 1, and the scenario goes on to the continuous factor and the loss.
\<close>

theorem zero_interval_behaviour:
  "cumulative_scenario rate_bps total_time 0 = Inl ZeroDivisionError
   \<and> frequency_updates_count total_time 0 = 1
   \<and> frequency_scenario exp_via_float rate_bps total_time 0 =
       and_then (calculate_continuous_compounding_factor exp_via_float rate_bps total_time) (\<lambda>con.
       and_then (calculate_precision_loss 1 con) (\<lambda>l.
       Inr \<lparr>updates_performed = 1, cumulative_linear_factor = 1,
            theoretical_continuous_factor = con, precision_loss = l\<rparr>))"
proof (intro conjI)
  show "cumulative_scenario rate_bps total_time 0 = Inl ZeroDivisionError"
    by (simp add: cumulative_scenario_def py_floordiv_def and_then_Inl)
  show "frequency_updates_count total_time 0 = 1"
    by (simp add: frequency_updates_count_def)
  show "frequency_scenario exp_via_float rate_bps total_time 0 =
       and_then (calculate_continuous_compounding_factor exp_via_float rate_bps total_time) (\<lambda>con.
       and_then (calculate_precision_loss 1 con) (\<lambda>l.
       Inr \<lparr>updates_performed = 1, cumulative_linear_factor = 1,
            theoretical_continuous_factor = con, precision_loss = l\<rparr>))"
    using cumulative_linear_once_at_0[of rate_bps]
    by (simp add: frequency_scenario_def frequency_updates_count_def and_then_Inr)
qed

text \<open>
  Claim C7, as stated, fails: the functions validate nothing. A negative rate of -1000
  basis points over one day is accepted and gives the factor
  0.99972602739726027397260273972602739726027397260274, and 5001 basis points, above the
  cap of 5000, is accepted and gives a factor larger than the one at the cap.
\<close>

theorem invalid_rate_counterexample:
  "calculate_linear_growth_factor (- 1000) 86400
     = Inr (99972602739726027397260273972602739726027397260274 / 10 ^ 50)
   \<and> calculate_linear_growth_factor 5001 1
     = Inr (10000000158580669710806697108066971080669710806697 / 10 ^ 49)
   \<and> calculate_linear_growth_factor 5000 1
     = Inr (10000000158548959918822932521562658548959918822933 / 10 ^ 49)"
  using linear_growth_minus_1000_day linear_growth_5001_second linear_growth_5000_second
  by (intro conjI)

text \<open>
  Claim C7, amended. The model functions reject no input. For every integer rate and time
  of magnitude below \<open>10 ^ 100\<close>, negative or above the cap included,
  \<open>calculate_linear_growth_factor\<close> returns \<open>1 + rate / 10000 / 31536000 * time\<close> with
  each operation rounded to 50 significant digits, and
  \<open>calculate_continuous_compounding_factor\<close> passes the rounded exponent to the
  exponential step and returns what that step returns. The result is not clamped: a
  negative rate over a positive time gives a linear factor strictly below 1. The bound
  keeps the inputs where neither the conversion of an int to a Decimal nor the exponent
  range of the context raises.
\<close>

theorem model_functions_do_not_validate:
  assumes "\<bar>rate_bps\<bar> < 10 ^ 100" "\<bar>t\<bar> < 10 ^ 100"
  shows "calculate_linear_growth_factor rate_bps t =
     Inr (dfix (1 + dfix (dfix (dfix (of_int rate_bps / 10000) / 31536000) * of_int t)))
   \<and> calculate_continuous_compounding_factor exp_via_float rate_bps t =
     exp_via_float (dfix (dfix (dfix (of_int rate_bps / 10000) / 31536000) * of_int t))
   \<and> (rate_bps < 0 \<and> 0 < t \<longrightarrow>
       dfix (1 + dfix (dfix (dfix (of_int rate_bps / 10000) / 31536000) * of_int t)) < 1)"
  using linear_growth_value continuous_value negative_rate_below_one by blast

theorem model_functions_do_not_validate_witness:
  "calculate_linear_growth_factor (- 1000) 86400 =
     Inr (dfix (1 + dfix (dfix (dfix (of_int (- 1000) / 10000) / 31536000) * of_int 86400)))
   \<and> dfix (1 + dfix (dfix (dfix (of_int (- 1000) / 10000) / 31536000) * of_int 86400)) < 1"
proof -
  have b: "\<bar>- 1000 :: int\<bar> < 10 ^ 100" "\<bar>86400 :: int\<bar> < 10 ^ 100" by simp_all
  have h: "(- 1000::int) < 0 \<and> (0::int) < 86400" by simp
  from model_functions_do_not_validate[OF b] h show ?thesis by blast
qed

text \<open>
  Claim C8. The specification has the loss between the linear and the continuous model
  increase strictly with the elapsed time for a positive rate. At 1000 basis points the
  linear factor and the continuous factor both increase from 2 to 3 seconds, but the loss
  the script computes falls from about \<open>1.03 / 10 ^ 12\<close> basis points to 0, because the
  continuous factor is a binary64 result with 17 digits that at 3 seconds lies below the
  linear factor. The two hypotheses are the values of
  \<open>Decimal(str(math.exp(float(exponent))))\<close> at the two exponents.
\<close>

theorem precision_loss_not_increasing:
  assumes "exp_via_float (63419583967529173008625063419583967529173008625064 / 10 ^ 58)
             = Inr (10000000063419585 / 10 ^ 16)"
    and "exp_via_float (95129375951293759512937595129375951293759512937596 / 10 ^ 58)
             = Inr (10000000095129375 / 10 ^ 16)"
  shows "calculate_linear_growth_factor 1000 2
           = Inr (10000000063419583967529173008625063419583967529173 / 10 ^ 49)
    \<and> calculate_linear_growth_factor 1000 3
           = Inr (1000000009512937595129375951293759512937595129376 / 10 ^ 48)
    \<and> calculate_continuous_compounding_factor exp_via_float 1000 2
           = Inr (10000000063419585 / 10 ^ 16)
    \<and> calculate_continuous_compounding_factor exp_via_float 1000 3
           = Inr (10000000095129375 / 10 ^ 16)
    \<and> calculate_precision_loss (10000000063419583967529173008625063419583967529173 / 10 ^ 49)
           (10000000063419585 / 10 ^ 16) = Inr (1032470826991374936580416032470827 / 10 ^ 45)
    \<and> calculate_precision_loss (1000000009512937595129375951293759512937595129376 / 10 ^ 48)
           (10000000095129375 / 10 ^ 16) = Inr 0"
proof (intro conjI)
  show "calculate_linear_growth_factor 1000 2
           = Inr (10000000063419583967529173008625063419583967529173 / 10 ^ 49)"
    by (rule linear_growth_1000_2s)
  show "calculate_linear_growth_factor 1000 3
           = Inr (1000000009512937595129375951293759512937595129376 / 10 ^ 48)"
    by (rule linear_growth_1000_3s)
  show "calculate_continuous_compounding_factor exp_via_float 1000 2
           = Inr (10000000063419585 / 10 ^ 16)"
    by (simp only: calculate_continuous_compounding_factor_def exponent_1000_2s and_then_Inr assms(1))
  show "calculate_continuous_compounding_factor exp_via_float 1000 3
           = Inr (10000000095129375 / 10 ^ 16)"
    by (simp only: calculate_continuous_compounding_factor_def exponent_1000_3s and_then_Inr assms(2))
  show "calculate_precision_loss (10000000063419583967529173008625063419583967529173 / 10 ^ 49)
           (10000000063419585 / 10 ^ 16) = Inr (1032470826991374936580416032470827 / 10 ^ 45)"
    by (rule loss_1000_2s)
  show "calculate_precision_loss (1000000009512937595129375951293759512937595129376 / 10 ^ 48)
           (10000000095129375 / 10 ^ 16) = Inr 0"
    by (rule loss_1000_3s)
qed

theorem precision_loss_not_increasing_witness:
  "calculate_continuous_compounding_factor
       (\<lambda>x. if x = 63419583967529173008625063419583967529173008625064 / 10 ^ 58
        then Inr (10000000063419585 / 10 ^ 16) else Inr (10000000095129375 / 10 ^ 16)) 1000 2
     = Inr (10000000063419585 / 10 ^ 16)
   \<and> calculate_continuous_compounding_factor
       (\<lambda>x. if x = 63419583967529173008625063419583967529173008625064 / 10 ^ 58
        then Inr (10000000063419585 / 10 ^ 16) else Inr (10000000095129375 / 10 ^ 16)) 1000 3
     = Inr (10000000095129375 / 10 ^ 16)
   \<and> calculate_precision_loss (10000000063419583967529173008625063419583967529173 / 10 ^ 49)
         (10000000063419585 / 10 ^ 16) = Inr (1032470826991374936580416032470827 / 10 ^ 45)
   \<and> calculate_precision_loss (1000000009512937595129375951293759512937595129376 / 10 ^ 48)
         (10000000095129375 / 10 ^ 16) = Inr 0"
proof -
  have h2: "(\<lambda>x::rat. if x = 63419583967529173008625063419583967529173008625064 / 10 ^ 58
        then (Inr (10000000063419585 / 10 ^ 16) :: error + rat) else Inr (10000000095129375 / 10 ^ 16))
      (63419583967529173008625063419583967529173008625064 / 10 ^ 58) = Inr (10000000063419585 / 10 ^ 16)"
    by simp
  have h3: "(\<lambda>x::rat. if x = 63419583967529173008625063419583967529173008625064 / 10 ^ 58
        then (Inr (10000000063419585 / 10 ^ 16) :: error + rat) else Inr (10000000095129375 / 10 ^ 16))
      (95129375951293759512937595129375951293759512937596 / 10 ^ 58) = Inr (10000000095129375 / 10 ^ 16)"
    by simp
  note t = precision_loss_not_increasing[of "\<lambda>x::rat. if x = 63419583967529173008625063419583967529173008625064 / 10 ^ 58
        then (Inr (10000000063419585 / 10 ^ 16) :: error + rat) else Inr (10000000095129375 / 10 ^ 16)", OF h2 h3]
  from t show ?thesis by blast
qed

text \<open>
  Claim C9, as stated, fails at \<open>timeSeconds = 0\<close>, a valid rate specification: the
  cumulative scenario with interval 0 raises \<open>ZeroDivisionError\<close>, while the single-step
  model returns the index \<open>RAY\<close>.
\<close>

theorem single_step_counterexample:
  "cumulative_scenario 1000 0 0 = Inl ZeroDivisionError
   \<and> contract_growth_factor 1000 0 = Inr RAY
   \<and> contract_final_index 1000 0 = Inr RAY"
proof -
  have "yield_index_update RAY RAY = Inr RAY"
    using yield_index_update_RAY[of RAY] by (simp only: dfix_RAY)
  then show ?thesis
    by (simp add: cumulative_scenario_def py_floordiv_def and_then_Inl contract_growth_at_0
        contract_final_index_def and_then_Inr)
qed

text \<open>
  Claim C9, amended. For every rate and every non-zero \<open>timeSeconds\<close>, the cumulative
  scenario with \<open>updateIntervalSeconds = totalTimeSeconds\<close> performs one update and its
  final contract index equals the single-step growth factor and the single-step final
  index for the same rate and time.
\<close>

theorem single_step_agrees:
  assumes "t \<noteq> 0"
  shows "\<exists>g. contract_growth_factor rate_bps t = Inr g
           \<and> contract_final_index rate_bps t = Inr g
           \<and> cumulative_scenario rate_bps t t =
               Inr \<lparr>updates_count = 1, contract_yield_index = g,
                    exact_yield_index = g, cumulative_precision_loss = 0\<rparr>"
proof -
  define g where "g = dfix (RAY + dmul (rate_core rate_bps) (Decimal t))"
  have cg: "contract_growth_factor rate_bps t = Inr g"
    by (simp only: growth_factor_returns g_def dadd_def)
  have eg: "exact_growth_factor rate_bps t = Inr g"
    using cg by (simp only: growth_factor_eq)
  have up: "yield_index_update RAY g = Inr g"
    unfolding g_def by (rule yield_index_update_RAY)
  have fi: "contract_final_index rate_bps t = Inr g"
    by (simp only: contract_final_index_def cg and_then_Inr up)
  have "cumulative_updates rate_bps t (Suc 0) (RAY, RAY) = Inr (g, g)"
    by (simp add: cg eg up and_then_Inr)
  then have "cumulative_scenario rate_bps t t =
               Inr \<lparr>updates_count = 1, contract_yield_index = g,
                    exact_yield_index = g, cumulative_precision_loss = 0\<rparr>"
    using assms by (simp add: cumulative_scenario_def py_floordiv_def and_then_Inr loss_bps_same)
  with cg fi show ?thesis by blast
qed

theorem single_step_agrees_witness:
  "contract_growth_factor 1000 86400
     = Inr (10002739726027397260273972602739726027397260273973 / 10 ^ 22)
   \<and> cumulative_scenario 1000 86400 86400 =
       Inr \<lparr>updates_count = 1,
            contract_yield_index = 10002739726027397260273972602739726027397260273973 / 10 ^ 22,
            exact_yield_index = 10002739726027397260273972602739726027397260273973 / 10 ^ 22,
            cumulative_precision_loss = 0\<rparr>"
proof -
  have "dfix (31709791983764586504312531709791983764586504312532 / 10 ^ 31 * of_int 86400)
      = 27397260273972602739726027397260273972602739726028 / 10 ^ 26"
    using dfix_eqI[of "23" "31709791983764586504312531709791983764586504312532 / 10 ^ 31 * of_int 86400" "27397260273972602739726027397260273972602739726028"]
    by simp
  moreover have "dfix (10 ^ 27 + 27397260273972602739726027397260273972602739726028 / 10 ^ 26)
      = 10002739726027397260273972602739726027397260273973 / 10 ^ 22"
    using dfix_eqI[of "27" "10 ^ 27 + 27397260273972602739726027397260273972602739726028 / 10 ^ 26" "10002739726027397260273972602739726027397260273973"]
    by simp
  ultimately have e: "contract_growth_factor 1000 86400
     = Inr (10002739726027397260273972602739726027397260273973 / 10 ^ 22)"
    by (simp only: growth_factor_returns rate_core_1000 dadd_def dmul_def Decimal_def RAY_def)
  have "(86400::int) \<noteq> 0" by simp
  from single_step_agrees[OF this, of 1000] e show ?thesis by auto
qed

text \<open>
  Claim C10. For every rate, with \<open>timeSeconds = 0\<close> the growth factor is the baseline
  unit in every model: \<open>RAY\<close> on the contract path and on the RAY-scaled exact path, 1 for
  the linear factor and 1 for the continuous factor; and every precision loss the script
  derives from them is exactly zero. The continuous factor is
  \<open>Decimal(str(math.exp(float(0))))\<close>; that the exponential step maps 0 to 1
  (\<open>math.exp(0.0) = 1.0\<close>) is the hypothesis on \<open>exp_via_float\<close>.
\<close>

theorem zero_time_is_baseline:
  assumes "exp_via_float 0 = Inr 1"
  shows "contract_growth_factor rate_bps 0 = Inr RAY
   \<and> exact_growth_factor rate_bps 0 = Inr RAY
   \<and> contract_final_index rate_bps 0 = Inr RAY
   \<and> calculate_linear_growth_factor rate_bps 0 = Inr 1
   \<and> calculate_continuous_compounding_factor exp_via_float rate_bps 0 = Inr 1
   \<and> growth_precision_loss rate_bps 0 = Inr 0
   \<and> extreme_precision_loss rate_bps 0 = Inr 0
   \<and> and_then (calculate_linear_growth_factor rate_bps 0) (\<lambda>linear_factor.
       and_then (calculate_continuous_compounding_factor exp_via_float rate_bps 0) (\<lambda>continuous_factor.
       calculate_precision_loss linear_factor continuous_factor)) = Inr 0
   \<and> difference_bps rate_bps 0 (10 ^ 27) = Inr 0"
proof (intro conjI)
  show "contract_growth_factor rate_bps 0 = Inr RAY" by (rule contract_growth_at_0)
  show "exact_growth_factor rate_bps 0 = Inr RAY" by (rule exact_growth_at_0)
  have "yield_index_update RAY RAY = Inr RAY"
    using yield_index_update_RAY[of RAY] by (simp only: dfix_RAY)
  then show fi: "contract_final_index rate_bps 0 = Inr RAY"
    by (simp only: contract_final_index_def contract_growth_at_0 and_then_Inr)
  show "calculate_linear_growth_factor rate_bps 0 = Inr 1" by (rule linear_growth_at_0)
  show c: "calculate_continuous_compounding_factor exp_via_float rate_bps 0 = Inr 1"
    by (simp only: continuous_at_0 assms)
  show "growth_precision_loss rate_bps 0 = Inr 0"
    by (simp only: growth_precision_loss_def contract_growth_at_0 exact_growth_at_0 and_then_Inr
        loss_bps_same)
  show "extreme_precision_loss rate_bps 0 = Inr 0"
    by (simp only: extreme_precision_loss_def final_index_eq[symmetric] fi and_then_Inr loss_bps_same)
  show "and_then (calculate_linear_growth_factor rate_bps 0) (\<lambda>linear_factor.
       and_then (calculate_continuous_compounding_factor exp_via_float rate_bps 0) (\<lambda>continuous_factor.
       calculate_precision_loss linear_factor continuous_factor)) = Inr 0"
    by (simp add: linear_growth_at_0 c and_then_Inr calculate_precision_loss_value)
  show "difference_bps rate_bps 0 (10 ^ 27) = Inr 0" by (rule difference_bps_at_0)
qed

theorem zero_time_is_baseline_witness:
  "contract_growth_factor 1000 0 = Inr RAY
   \<and> calculate_linear_growth_factor 1000 0 = Inr 1
   \<and> calculate_continuous_compounding_factor (\<lambda>x. Inr (1 + x + x * x / 2)) 1000 0 = Inr 1
   \<and> growth_precision_loss 1000 0 = Inr 0"
proof -
  have h: "(\<lambda>x::rat. (Inr (1 + x + x * x / 2) :: error + rat)) 0 = Inr 1" by simp
  from zero_time_is_baseline[of "\<lambda>x. Inr (1 + x + x * x / 2)" 1000, OF h]
  show ?thesis by blast
qed

end
